theory Spec2Isabelle
  imports Main
begin

section \<open>Strings of the JavaScript runtime\<close>

text \<open>
  A JavaScript string is a sequence of UTF-16 code units, and \<open>length\<close>, \<open>slice\<close>,
  \<open>split\<close>, \<open>trim\<close> and \<open>startsWith\<close> count and compare code units. A code unit is a
  number below 65536; the client does no arithmetic on code units, so they are modelled
  as natural numbers and a string as a list of them. \<open>js\<close> writes an ASCII literal.
  The text a stream delivers is modelled after \<open>TextDecoder.decode(value, {stream: true})\<close>:
  a chunk is the decoded text the reader hands to the loop.
\<close>

type_synonym code_unit = nat
type_synonym jsstring = "code_unit list"

definition js :: "string \<Rightarrow> jsstring" where
  "js s = map of_char s"

text \<open>\<open>String.prototype.trim\<close> strips WhiteSpace and LineTerminator code units.\<close>

definition is_js_space :: "code_unit \<Rightarrow> bool" where
  "is_js_space c =
     (c = 9 \<or> c = 10 \<or> c = 11 \<or> c = 12 \<or> c = 13 \<or> c = 32 \<or> c = 160 \<or> c = 5760
      \<or> (8192 \<le> c \<and> c \<le> 8202) \<or> c = 8232 \<or> c = 8233 \<or> c = 8239 \<or> c = 8287
      \<or> c = 12288 \<or> c = 65279)"

definition trim :: "jsstring \<Rightarrow> jsstring" where
  "trim s = rev (dropWhile is_js_space (rev (dropWhile is_js_space s)))"

text \<open>\<open>xs.join(sep)\<close>.\<close>

fun js_join :: "jsstring \<Rightarrow> jsstring list \<Rightarrow> jsstring" where
  "js_join sep [] = []"
| "js_join sep [x] = x"
| "js_join sep (x # y # r) = x @ sep @ js_join sep (y # r)"

text \<open>
  \<open>s.split(sep)\<close> for a non-empty separator: the pieces between the successive
  left-to-right, non-overlapping occurrences of \<open>sep\<close>; the empty string gives one
  empty piece.
\<close>

function js_split :: "jsstring \<Rightarrow> jsstring \<Rightarrow> jsstring list" where
  "js_split sep [] = [[]]"
| "js_split sep (c # s) =
     (if sep \<noteq> [] \<and> take (length sep) (c # s) = sep
      then [] # js_split sep (drop (length sep) (c # s))
      else (case js_split sep s of
              [] \<Rightarrow> [[c]]
            | p # ps \<Rightarrow> (c # p) # ps))"
  by pat_completeness auto
termination
  by (relation "measure (\<lambda>(sep, s). length s)") auto

text \<open>\<open>s.replace(/\r\n/g, '\n')\<close> and \<open>s.replace(/\r/g, '\n')\<close>.\<close>

fun replace_crlf :: "jsstring \<Rightarrow> jsstring" where
  "replace_crlf (a # b # s) =
     (if a = 13 \<and> b = 10 then 10 # replace_crlf s else a # replace_crlf (b # s))"
| "replace_crlf s = s"

definition replace_cr :: "jsstring \<Rightarrow> jsstring" where
  "replace_cr s = map (\<lambda>c. if c = 13 then 10 else c) s"

definition startsWith :: "jsstring \<Rightarrow> jsstring \<Rightarrow> bool" where
  "startsWith s p = (take (length p) s = p)"

text \<open>
  \<open>text.slice(0, e)\<close>: a negative end counts from the end of the string.
\<close>

definition slice0 :: "jsstring \<Rightarrow> int \<Rightarrow> jsstring" where
  "slice0 s e = (if e < 0 then take (nat (int (length s) + e)) s else take (nat e) s)"

text \<open>The template literal \<open>${n}\<close> of a non-negative integer: its decimal digits.\<close>

function show_nat :: "nat \<Rightarrow> jsstring" where
  "show_nat n = (if n < 10 then [48 + n] else show_nat (n div 10) @ [48 + n mod 10])"
  by pat_completeness auto
termination
  by (relation "measure id") auto

declare show_nat.simps [simp del]

section \<open>JSON values and \<open>JSON.parse\<close>\<close>

text \<open>
  The payload of a block is \<open>unknown\<close> to the client, which probes it at run time, so
  it is modelled as a JSON value. A number keeps its literal text. An object keeps its
  members in source order; a later duplicate key wins on lookup, as in JavaScript.
  \<open>JSON_parse\<close> is the runtime's \<open>JSON.parse\<close> on the JSON grammar; \<open>None\<close> is the
  SyntaxError it throws. The length tests in \<open>parse_elements\<close> and \<open>parse_members\<close>
  always succeed (a parsed value consumes input); they make the recursion visibly
  terminating.
\<close>

datatype json =
    JNull
  | JBool bool
  | JNum jsstring
  | JStr jsstring
  | JArr "json list"
  | JObj "(jsstring \<times> json) list"

definition is_json_ws :: "code_unit \<Rightarrow> bool" where
  "is_json_ws c = (c = 32 \<or> c = 9 \<or> c = 10 \<or> c = 13)"

definition skip_ws :: "jsstring \<Rightarrow> jsstring" where
  "skip_ws s = dropWhile is_json_ws s"

definition is_digit :: "code_unit \<Rightarrow> bool" where
  "is_digit c = (48 \<le> c \<and> c \<le> 57)"

definition hex_val :: "code_unit \<Rightarrow> nat option" where
  "hex_val c =
     (if 48 \<le> c \<and> c \<le> 57 then Some (c - 48)
      else if 65 \<le> c \<and> c \<le> 70 then Some (c - 55)
      else if 97 \<le> c \<and> c \<le> 102 then Some (c - 87)
      else None)"

definition unescape :: "code_unit \<Rightarrow> code_unit option" where
  "unescape e =
     (if e = 34 then Some 34
      else if e = 92 then Some 92
      else if e = 47 then Some 47
      else if e = 98 then Some 8
      else if e = 102 then Some 12
      else if e = 110 then Some 10
      else if e = 114 then Some 13
      else if e = 116 then Some 9
      else None)"

fun parse_chars :: "jsstring \<Rightarrow> (jsstring \<times> jsstring) option" where
  "parse_chars [] = None"
| "parse_chars (c # s) =
     (if c = 34 then Some ([], s)
      else if c = 92 then
        (case s of
           [] \<Rightarrow> None
         | e # s' \<Rightarrow>
             if e = 117 then
               (case s' of
                  h1 # h2 # h3 # h4 # s'' \<Rightarrow>
                    (case (hex_val h1, hex_val h2, hex_val h3, hex_val h4) of
                       (Some a, Some b, Some c', Some d) \<Rightarrow>
                         map_option (\<lambda>(str, r). ((((a * 16 + b) * 16 + c') * 16 + d) # str, r))
                           (parse_chars s'')
                     | _ \<Rightarrow> None)
                | _ \<Rightarrow> None)
             else
               (case unescape e of
                  None \<Rightarrow> None
                | Some d \<Rightarrow> map_option (\<lambda>(str, r). (d # str, r)) (parse_chars s')))
      else if c < 32 then None
      else map_option (\<lambda>(str, r). (c # str, r)) (parse_chars s))"

definition parse_digits :: "jsstring \<Rightarrow> (jsstring \<times> jsstring) option" where
  "parse_digits s =
     (if takeWhile is_digit s = [] then None
      else Some (takeWhile is_digit s, dropWhile is_digit s))"

definition parse_int_part :: "jsstring \<Rightarrow> (jsstring \<times> jsstring) option" where
  "parse_int_part s =
     (case s of
        [] \<Rightarrow> None
      | d # r \<Rightarrow>
          if d = 48 then Some ([d], r)
          else if is_digit d then Some (d # takeWhile is_digit r, dropWhile is_digit r)
          else None)"

definition parse_frac :: "jsstring \<Rightarrow> (jsstring \<times> jsstring) option" where
  "parse_frac s =
     (case s of
        [] \<Rightarrow> Some ([], s)
      | d # r \<Rightarrow>
          if d = 46 then map_option (\<lambda>(ds, r'). (d # ds, r')) (parse_digits r)
          else Some ([], s))"

definition parse_exp :: "jsstring \<Rightarrow> (jsstring \<times> jsstring) option" where
  "parse_exp s =
     (case s of
        [] \<Rightarrow> Some ([], s)
      | e # r \<Rightarrow>
          if e = 101 \<or> e = 69 then
            (case r of
               [] \<Rightarrow> None
             | g # r' \<Rightarrow>
                 if g = 43 \<or> g = 45 then map_option (\<lambda>(ds, r''). (e # g # ds, r'')) (parse_digits r')
                 else map_option (\<lambda>(ds, r''). (e # ds, r'')) (parse_digits r))
          else Some ([], s))"

definition parse_number :: "jsstring \<Rightarrow> (jsstring \<times> jsstring) option" where
  "parse_number s =
     (let (sign, s1) = (case s of [] \<Rightarrow> ([], s) | m # r \<Rightarrow> if m = 45 then ([m], r) else ([], s)) in
      case parse_int_part s1 of
        None \<Rightarrow> None
      | Some (ip, s2) \<Rightarrow>
          (case parse_frac s2 of
             None \<Rightarrow> None
           | Some (fp, s3) \<Rightarrow>
               (case parse_exp s3 of
                  None \<Rightarrow> None
                | Some (ep, s4) \<Rightarrow> Some (sign @ ip @ fp @ ep, s4))))"

lemma skip_ws_Cons_length: "skip_ws s = d # r \<Longrightarrow> length r < length s"
proof -
  assume h: "skip_ws s = d # r"
  have "length (skip_ws s) \<le> length s"
    unfolding skip_ws_def by (rule length_dropWhile_le)
  with h show ?thesis by simp
qed

lemma skip_ws_Cons_length2: "skip_ws s = d # r \<Longrightarrow> length (skip_ws r) < length s"
  using skip_ws_Cons_length [of s d r] length_dropWhile_le [of is_json_ws r]
  unfolding skip_ws_def by simp

lemma skip_ws_length: "length (skip_ws s) \<le> length s"
  unfolding skip_ws_def by (rule length_dropWhile_le)

function parse_value :: "jsstring \<Rightarrow> (json \<times> jsstring) option"
  and parse_elements :: "jsstring \<Rightarrow> (json list \<times> jsstring) option"
  and parse_members :: "jsstring \<Rightarrow> ((jsstring \<times> json) list \<times> jsstring) option"
where
  "parse_value [] = None"
| "parse_value (c # s) =
     (if c = 123 then
        (case skip_ws s of
           [] \<Rightarrow> None
         | d # r \<Rightarrow>
             if d = 125 then Some (JObj [], r)
             else map_option (\<lambda>(kvs, r'). (JObj kvs, r')) (parse_members (d # r)))
      else if c = 91 then
        (case skip_ws s of
           [] \<Rightarrow> None
         | d # r \<Rightarrow>
             if d = 93 then Some (JArr [], r)
             else map_option (\<lambda>(vs, r'). (JArr vs, r')) (parse_elements (d # r)))
      else if c = 34 then map_option (\<lambda>(str, r). (JStr str, r)) (parse_chars s)
      else if take 4 (c # s) = js ''true'' then Some (JBool True, drop 3 s)
      else if take 5 (c # s) = js ''false'' then Some (JBool False, drop 4 s)
      else if take 4 (c # s) = js ''null'' then Some (JNull, drop 3 s)
      else map_option (\<lambda>(lit, r). (JNum lit, r)) (parse_number (c # s)))"
| "parse_elements s =
     (case parse_value s of
        None \<Rightarrow> None
      | Some (v, r) \<Rightarrow>
          if length r < length s then
            (case skip_ws r of
               [] \<Rightarrow> None
             | d # r' \<Rightarrow>
                 if d = 93 then Some ([v], r')
                 else if d = 44 then
                   map_option (\<lambda>(vs, r''). (v # vs, r'')) (parse_elements (skip_ws r'))
                 else None)
          else None)"
| "parse_members s =
     (case s of
        [] \<Rightarrow> None
      | q # s1 \<Rightarrow>
          if q \<noteq> 34 then None
          else
            (case parse_chars s1 of
               None \<Rightarrow> None
             | Some (k, r) \<Rightarrow>
                 (case skip_ws r of
                    [] \<Rightarrow> None
                  | col # r1 \<Rightarrow>
                      if col \<noteq> 58 \<or> \<not> length (skip_ws r1) < length s then None
                      else
                        (case parse_value (skip_ws r1) of
                           None \<Rightarrow> None
                         | Some (v, r3) \<Rightarrow>
                             if length r3 < length s then
                               (case skip_ws r3 of
                                  [] \<Rightarrow> None
                                | d # r4 \<Rightarrow>
                                    if d = 125 then Some ([(k, v)], r4)
                                    else if d = 44 then
                                      map_option (\<lambda>(kvs, r5). ((k, v) # kvs, r5))
                                        (parse_members (skip_ws r4))
                                    else None)
                             else None))))"
  by pat_completeness auto
termination
  apply (relation "measure (\<lambda>x. case x of
            Inl s \<Rightarrow> 2 * length s
          | Inr (Inl s) \<Rightarrow> 2 * length s + 1
          | Inr (Inr s) \<Rightarrow> 2 * length s + 1)")
  apply (auto dest: skip_ws_Cons_length skip_ws_Cons_length2)
  done

definition JSON_parse :: "jsstring \<Rightarrow> json option" where
  "JSON_parse s =
     (case parse_value (skip_ws s) of
        None \<Rightarrow> None
      | Some (v, r) \<Rightarrow> if skip_ws r = [] then Some v else None)"


section \<open>The values the client probes\<close>

text \<open>
  JavaScript truthiness of a parsed value. A number is falsy when it is zero. The
  literal (sign, integer digits, fraction, exponent) denotes \<open>m * 10 ^ e\<close> for the
  digits \<open>m\<close> of its integer part and fraction and the exponent \<open>e\<close> less the number
  of fraction digits; \<open>JSON.parse\<close> rounds it to the nearest double, and to the even
  one of two that are as near. The least positive double is \<open>2 ^ -1074\<close>, so the
  number is zero when the literal denotes at most \<open>2 ^ -1075\<close>, as \<open>0.0\<close>, \<open>-0\<close> and
  \<open>1e-400\<close> do.
\<close>

definition digits_value :: "jsstring \<Rightarrow> int" where
  "digits_value ds = foldl (\<lambda>n d. 10 * n + (int d - 48)) 0 ds"

definition num_nonzero :: "jsstring \<Rightarrow> bool" where
  "num_nonzero lit =
     (let body = (case lit of [] \<Rightarrow> [] | c # r \<Rightarrow> if c = 45 then r else lit);
          ip = takeWhile is_digit body;
          r1 = dropWhile is_digit body;
          fp = (case r1 of [] \<Rightarrow> [] | c # r \<Rightarrow> if c = 46 then takeWhile is_digit r else []);
          r2 = (case r1 of [] \<Rightarrow> [] | c # r \<Rightarrow> if c = 46 then dropWhile is_digit r else r1);
          ex = (case r2 of
                  [] \<Rightarrow> 0
                | e # r \<Rightarrow>
                    (case r of
                       [] \<Rightarrow> 0
                     | g # ds \<Rightarrow>
                         if g = 45 then - digits_value ds
                         else if g = 43 then digits_value ds
                         else digits_value r));
          m = digits_value (ip @ fp);
          e10 = ex - int (length fp)
      in if 0 \<le> e10 then 0 < m else 10 ^ nat (- e10) < m * 2 ^ 1075)"

fun truthy :: "json \<Rightarrow> bool" where
  "truthy JNull = False"
| "truthy (JBool b) = b"
| "truthy (JNum lit) = num_nonzero lit"
| "truthy (JStr s) = (s \<noteq> [])"
| "truthy (JArr vs) = True"
| "truthy (JObj kvs) = True"

text \<open>\<open>typeof v === 'object'\<close>.\<close>

fun typeof_object :: "json \<Rightarrow> bool" where
  "typeof_object JNull = True"
| "typeof_object (JArr vs) = True"
| "typeof_object (JObj kvs) = True"
| "typeof_object v = False"

text \<open>
  \<open>v[k]\<close> for the keys the client reads (\<open>jsonrpc\<close>, \<open>result\<close>, \<open>contextId\<close>, \<open>kind\<close>,
  \<open>status\<close>, \<open>state\<close>, \<open>message\<close>, \<open>artifact\<close>, \<open>parts\<close>): \<open>None\<close> is \<open>undefined\<close>. Only
  an object has such a property; an array, a string, a number and a boolean give
  \<open>undefined\<close>. \<open>opt_prop\<close> is the optional chain \<open>v?.[k]\<close>, which also gives
  \<open>undefined\<close> on \<open>undefined\<close> and \<open>null\<close>.
\<close>

fun get_prop :: "json \<Rightarrow> jsstring \<Rightarrow> json option" where
  "get_prop (JObj kvs) k = map_of (rev kvs) k"
| "get_prop v k = None"

definition opt_prop :: "json option \<Rightarrow> jsstring \<Rightarrow> json option" where
  "opt_prop v k = (case v of None \<Rightarrow> None | Some x \<Rightarrow> get_prop x k)"

text \<open>
  \<open>parts?.length\<close> as a condition: the parts when the test passes. An array and a
  string have a length, an object has one when it has a truthy member of that name.
\<close>

fun parts_with_length :: "json option \<Rightarrow> json option" where
  "parts_with_length None = None"
| "parts_with_length (Some (JArr vs)) = (if vs \<noteq> [] then Some (JArr vs) else None)"
| "parts_with_length (Some (JStr s)) = (if s \<noteq> [] then Some (JStr s) else None)"
| "parts_with_length (Some (JObj kvs)) =
     (case map_of (rev kvs) (js ''length'') of
        None \<Rightarrow> None
      | Some l \<Rightarrow> if truthy l then Some (JObj kvs) else None)"
| "parts_with_length (Some v) = None"

text \<open>
  The unwrapping both \<open>processBuffer\<close> and \<open>dispatchSseEvent\<close> do: the nested result
  object of a JSON-RPC envelope, else the value itself.
\<close>

definition unwrap :: "json \<Rightarrow> json" where
  "unwrap env =
     (case get_prop env (js ''result'') of
        None \<Rightarrow> env
      | Some r \<Rightarrow>
          if get_prop env (js ''jsonrpc'') = Some (JStr (js ''2.0'')) \<and> truthy r \<and> typeof_object r
          then r else env)"

section \<open>streamMessage\<close>

text \<open>
  The callbacks of \<open>StreamCallbacks\<close>, as the events a stream delivers to its caller.
  \<open>OnDone\<close> carries \<open>firstContextId\<close> (\<open>None\<close> is \<open>null\<close>), \<open>OnError\<close> the message of
  the error. What a caller observes of one stream is the list of callbacks fired,
  with the moments at which \<open>cancel()\<close> was invoked.
\<close>

datatype callback =
    OnWorking
  | OnPart json
  | OnDone "json option"
  | OnError jsstring

datatype obs = Fired callback | CancelCalled

text \<open>
  A thrown value is an \<open>Error\<close> with its message, or another value with its \<open>String()\<close>
  rendering. \<open>err instanceof Error ? err : new Error(String(err))\<close> has the message
  \<open>error_message err\<close>.
\<close>

datatype thrown = ErrorObj jsstring | OtherThrown jsstring

fun error_message :: "thrown \<Rightarrow> jsstring" where
  "error_message (ErrorObj m) = m"
| "error_message (OtherThrown s) = s"

text \<open>
  What a callback of the caller does when it is called: it may invoke \<open>cancel()\<close>,
  and it returns or throws. A handler tells it from what has been observed up to
  and including the callback being delivered.
\<close>

record reaction =
  calls_cancel :: bool
  throws :: "thrown option"

type_synonym handler = "obs list \<Rightarrow> reaction"

record stream_state =
  buffer :: jsstring
  firstContextId :: "json option"
  aborted :: bool
  trace :: "obs list"

definition cancel :: "stream_state \<Rightarrow> stream_state" where
  "cancel st = st\<lparr>aborted := True, trace := trace st @ [CancelCalled]\<rparr>"

text \<open>
  Calling a callback: the state after the call, and what the call threw.
\<close>

definition fire :: "handler \<Rightarrow> callback \<Rightarrow> stream_state \<Rightarrow> stream_state \<times> thrown option" where
  "fire h cb st =
     (let st' = st\<lparr>trace := trace st @ [Fired cb]\<rparr>;
          r = h (trace st')
      in (if calls_cancel r then cancel st' else st', throws r))"

text \<open>
  \<open>dispatchSseEvent\<close> calls at most one callback on every path: the model returns the
  callback it calls, if any.
\<close>

definition dispatchSseEvent :: "json \<Rightarrow> callback option" where
  "dispatchSseEvent raw =
     (if \<not> truthy raw \<or> \<not> typeof_object raw then None
      else
        let event = unwrap raw;
            kind = get_prop event (js ''kind'')
        in
          if kind = Some (JStr (js ''status-update'')) then
            (let status = get_prop event (js ''status'');
                 state = opt_prop status (js ''state'')
             in
               if state = Some (JStr (js ''working'')) then
                 (let message = opt_prop status (js ''message'');
                      parts = opt_prop message (js ''parts'')
                  in case parts_with_length parts of
                       Some ps \<Rightarrow> Some (OnPart ps)
                     | None \<Rightarrow> Some OnWorking)
               else None)
          else if kind = Some (JStr (js ''artifact-update'')) then
            (let artifact = get_prop event (js ''artifact'');
                 parts = opt_prop artifact (js ''parts'')
             in case parts_with_length parts of
                  Some ps \<Rightarrow> Some (OnPart ps)
                | None \<Rightarrow> None)
          else if kind = Some (JStr (js ''message'')) then
            (let parts = get_prop event (js ''parts'')
             in case parts_with_length parts of
                  Some ps \<Rightarrow> Some (OnPart ps)
                | None \<Rightarrow> None)
          else None)"

text \<open>
  The capture of the context identifier in \<open>processBuffer\<close>:
  \<open>if (cid && !firstContextId) firstContextId = cid\<close> on the unwrapped payload.
\<close>

definition opt_truthy :: "json option \<Rightarrow> bool" where
  "opt_truthy v = (case v of None \<Rightarrow> False | Some x \<Rightarrow> truthy x)"

definition capture :: "json \<Rightarrow> json option \<Rightarrow> json option" where
  "capture parsed first =
     (if truthy parsed \<and> typeof_object parsed then
        (let inner = unwrap parsed;
             cid = get_prop inner (js ''contextId'')
         in if opt_truthy cid \<and> \<not> opt_truthy first then cid else first)
      else first)"

text \<open>The \<open>data: \<close> lines of a block, joined and trimmed.\<close>

definition data_lines :: "jsstring \<Rightarrow> jsstring list" where
  "data_lines eventBlock =
     map (drop 6) (filter (\<lambda>line. startsWith line (js ''data: '')) (js_split [10] eventBlock))"

definition block_raw :: "jsstring \<Rightarrow> jsstring" where
  "block_raw eventBlock = trim (js_join [10] (data_lines eventBlock))"

text \<open>
  The loop of \<open>processBuffer\<close> over the complete blocks. \<open>continue\<close> goes on with the
  next block; \<open>if (aborted) return\<close> leaves the loop, and so does what a callback
  throws, which is returned with the state.
\<close>

fun process_events ::
  "handler \<Rightarrow> jsstring list \<Rightarrow> stream_state \<Rightarrow> stream_state \<times> thrown option"
where
  "process_events h [] st = (st, None)"
| "process_events h (eventBlock # rest) st =
     (if trim eventBlock = [] then process_events h rest st
      else if block_raw eventBlock = [] \<or> block_raw eventBlock = js ''[DONE]''
      then process_events h rest st
      else
        (case JSON_parse (block_raw eventBlock) of
           None \<Rightarrow> process_events h rest st
         | Some parsed \<Rightarrow>
             if aborted st then (st, None)
             else
               (let st1 = st\<lparr>firstContextId := capture parsed (firstContextId st)\<rparr>
                in case dispatchSseEvent parsed of
                     None \<Rightarrow> process_events h rest st1
                   | Some cb \<Rightarrow>
                       (case fire h cb st1 of
                          (st2, None) \<Rightarrow> process_events h rest st2
                        | (st2, Some err) \<Rightarrow> (st2, Some err)))))"

text \<open>\<open>events.pop() ?? ''\<close>: the last piece and the pieces before it.\<close>

definition pop :: "jsstring list \<Rightarrow> jsstring \<times> jsstring list" where
  "pop events = (case events of [] \<Rightarrow> ([], []) | e # es \<Rightarrow> (last events, butlast events))"

definition normalize :: "jsstring \<Rightarrow> jsstring" where
  "normalize b = replace_cr (replace_crlf b)"

definition processBuffer :: "handler \<Rightarrow> stream_state \<Rightarrow> stream_state \<times> thrown option" where
  "processBuffer h st =
     (let normalized = normalize (buffer st);
          events = js_split [10, 10] normalized;
          (rest, complete) = pop events
      in process_events h complete (st\<lparr>buffer := rest\<rparr>))"

text \<open>
  The \<open>catch\<close> of the stream's \<open>try\<close>, which encloses \<open>fetch\<close>, the reads and every call
  of \<open>onWorking\<close>, \<open>onPart\<close> and \<open>onDone\<close>. What \<open>onError\<close> itself throws leaves the
  asynchronous function and reaches no callback.
\<close>

definition catch_error :: "handler \<Rightarrow> thrown \<Rightarrow> stream_state \<Rightarrow> stream_state" where
  "catch_error h err st =
     (if aborted st then st else fst (fire h (OnError (error_message err)) st))"

text \<open>
  What happens while the loop is suspended at \<open>await reader.read()\<close>: the caller
  invokes \<open>cancel()\<close>, or the read settles with a chunk, with the end of the stream, or
  with a rejection. An input that runs out before the read settles is a stream that
  is still pending.
\<close>

datatype read_result = Chunk jsstring | EndOfStream | ReadFails thrown

datatype step = Cancel | Read read_result

fun read_loop :: "handler \<Rightarrow> step list \<Rightarrow> stream_state \<Rightarrow> stream_state" where
  "read_loop h [] st = st"
| "read_loop h (Cancel # rs) st = read_loop h rs (cancel st)"
| "read_loop h (Read (ReadFails err) # rs) st = catch_error h err st"
| "read_loop h (Read EndOfStream # rs) st =
     (if aborted st then st
      else
        (case (if trim (buffer st) \<noteq> []
               then processBuffer h (st\<lparr>buffer := buffer st @ [10, 10]\<rparr>)
               else (st, None)) of
           (st1, Some err) \<Rightarrow> catch_error h err st1
         | (st1, None) \<Rightarrow>
             if \<not> aborted st1 then
               (case fire h (OnDone (firstContextId st1)) st1 of
                  (st2, None) \<Rightarrow> st2
                | (st2, Some err) \<Rightarrow> catch_error h err st2)
             else st1))"
| "read_loop h (Read (Chunk v) # rs) st =
     (if aborted st then st
      else
        (case processBuffer h (st\<lparr>buffer := buffer st @ v\<rparr>) of
           (st1, None) \<Rightarrow> read_loop h rs st1
         | (st1, Some err) \<Rightarrow> catch_error h err st1))"

text \<open>
  The outcome of \<open>fetch\<close>: a rejection, or a response with \<open>ok\<close>, \<open>status\<close> and whether
  it has a body. The input of one stream: whether \<open>cancel()\<close> is invoked while \<open>fetch\<close>
  is pending, the outcome of \<open>fetch\<close>, and what happens at the reads.
\<close>

datatype fetch_result = FetchRejects thrown | FetchResolves bool nat bool

record stream_input =
  cancel_during_fetch :: bool
  fetch_outcome :: fetch_result
  reads :: "step list"

definition initial_state :: stream_state where
  "initial_state = \<lparr>buffer = [], firstContextId = None, aborted = False, trace = []\<rparr>"

definition streamMessage :: "handler \<Rightarrow> stream_input \<Rightarrow> obs list" where
  "streamMessage h inp =
     trace
       (let st = (if cancel_during_fetch inp then cancel initial_state else initial_state)
        in case fetch_outcome inp of
             FetchRejects err \<Rightarrow> catch_error h err st
           | FetchResolves ok status has_body \<Rightarrow>
               if \<not> ok then catch_error h (ErrorObj (js ''HTTP '' @ show_nat status)) st
               else if \<not> has_body then catch_error h (ErrorObj (js ''No response body'')) st
               else read_loop h (reads inp) st)"

section \<open>sendMessage\<close>

text \<open>
  The response of the synchronous call, as \<open>JsonRpcResponse<A2AMessage>\<close> types it: an
  optional \<open>error\<close> with its message and an optional \<open>result\<close>, whose \<open>parts\<close> and
  \<open>contextId\<close> may be missing. \<open>res.json()\<close> gives it or rejects.
\<close>

datatype part = TextPart jsstring | DataPart jsstring json

record a2a_result =
  result_parts :: "part list option"
  result_contextId :: "jsstring option"

record rpc_response =
  rpc_error :: "jsstring option"
  rpc_result :: "a2a_result option"

record http_response =
  ok :: bool
  status :: nat
  json_body :: "thrown + rpc_response"

text \<open>
  The network: what each successive \<open>fetch\<close> settles with (a rejection or a response),
  and how many requests have been issued.
\<close>

record network =
  exchanges :: "nat \<Rightarrow> thrown + http_response"
  requests :: nat

definition fetch :: "network \<Rightarrow> (thrown + http_response) \<times> network" where
  "fetch net = (exchanges net (requests net), net\<lparr>requests := Suc (requests net)\<rparr>)"

record send_result =
  sr_parts :: "part list"
  sr_contextId :: "jsstring option"

definition sendMessage :: "network \<Rightarrow> (thrown + send_result) \<times> network" where
  "sendMessage net =
     (let (res, net') = fetch net
      in (case res of
            Inl err \<Rightarrow> Inl err
          | Inr r \<Rightarrow>
              if \<not> ok r then Inl (ErrorObj (js ''HTTP '' @ show_nat (status r)))
              else
                (case json_body r of
                   Inl err \<Rightarrow> Inl err
                 | Inr json \<Rightarrow>
                     (case rpc_error json of
                        Some m \<Rightarrow> Inl (ErrorObj m)
                      | None \<Rightarrow>
                          (case rpc_result json of
                             None \<Rightarrow> Inl (ErrorObj (js ''Empty result''))
                           | Some result \<Rightarrow>
                               Inr \<lparr>sr_parts = (case result_parts result of None \<Rightarrow> [] | Some ps \<Rightarrow> ps),
                                    sr_contextId = result_contextId result\<rparr>))),
          net'))"

fun is_text :: "part \<Rightarrow> bool" where
  "is_text (TextPart t) = True"
| "is_text (DataPart ty payload) = False"

fun text_of :: "part \<Rightarrow> jsstring" where
  "text_of (TextPart t) = t"
| "text_of (DataPart ty payload) = []"

definition partsToText :: "part list \<Rightarrow> jsstring" where
  "partsToText ps = js_join [10] (map text_of (filter is_text ps))"

section \<open>The conversation store of useChat\<close>

text \<open>
  \<open>ChatMessage\<close> and \<open>Conversation\<close>. Both have a field \<open>id\<close> in the source; a \<open>Date\<close> is
  its time value.
\<close>

datatype role = User | Agent

datatype message_status = StatusSending | StatusStreaming | StatusDone | StatusError

record chat_message =
  msg_id :: jsstring
  msg_role :: role
  parts :: "part list"
  msg_status :: message_status
  displayText :: "jsstring option"
  agentName :: "jsstring option"
  timestamp :: nat

record conversation =
  conv_id :: jsstring
  agentId :: jsstring
  title :: jsstring
  messages :: "chat_message list"
  createdAt :: nat
  updatedAt :: nat

definition updateMessage ::
  "jsstring \<Rightarrow> jsstring \<Rightarrow> (chat_message \<Rightarrow> chat_message) \<Rightarrow> conversation list \<Rightarrow> conversation list"
where
  "updateMessage convId msgId updater prev =
     map (\<lambda>c. if conv_id c \<noteq> convId then c
              else c\<lparr>messages := map (\<lambda>m. if msg_id m = msgId then updater m else m) (messages c)\<rparr>)
       prev"

text \<open>\<open>appendParts\<close>; \<open>now\<close> is the \<open>new Date()\<close> of the update.\<close>

definition appendParts ::
  "jsstring \<Rightarrow> jsstring \<Rightarrow> part list \<Rightarrow> nat \<Rightarrow> conversation list \<Rightarrow> conversation list"
where
  "appendParts convId msgId newParts now prev =
     map (\<lambda>c. if conv_id c \<noteq> convId then c
              else c\<lparr>messages :=
                       map (\<lambda>m. if msg_id m \<noteq> msgId then m
                                else (let merged = parts m @ newParts;
                                          fullText = js_join [10] (map text_of (filter is_text merged))
                                      in m\<lparr>parts := merged, displayText := Some fullText,
                                           msg_status := StatusStreaming\<rparr>))
                         (messages c),
                     updatedAt := now\<rparr>)
       prev"

definition markDone :: "jsstring \<Rightarrow> jsstring \<Rightarrow> conversation list \<Rightarrow> conversation list" where
  "markDone convId msgId prev = updateMessage convId msgId (\<lambda>m. m\<lparr>msg_status := StatusDone\<rparr>) prev"

section \<open>send\<close>

record agent_option =
  agent_id :: jsstring
  card_name :: jsstring
  card_streaming :: "bool option"

record chat_state =
  conversations :: "conversation list"
  activeConvId :: "jsstring option"
  selectedAgent :: "agent_option option"
  input :: jsstring
  isLoading :: bool

text \<open>
  What one call of \<open>send\<close> draws from its environment: the results of its \<open>uuidv4()\<close>
  calls and of its \<open>new Date()\<close> calls.
\<close>

record fresh =
  uuid_conv :: jsstring
  uuid_user :: jsstring
  uuid_agent :: jsstring
  date_user :: nat
  date_agent :: nat
  date_now :: nat

text \<open>
  The closure of one turn: \<open>localConvId\<close>, \<open>agentMsgId\<close>, whether the agent streams,
  and the mutable \<open>currentConvIdRef\<close>.
\<close>

record turn =
  localConvId :: jsstring
  agentMsgId :: jsstring
  supportsStreaming :: bool
  currentConvIdRef :: jsstring

text \<open>
  \<open>truncate\<close>, called with its default \<open>max = 42\<close>; the ellipsis is the single code
  unit U+2026.
\<close>

definition truncate :: "jsstring \<Rightarrow> int \<Rightarrow> jsstring" where
  "truncate text mx =
     (if int (length text) \<le> mx then text else slice0 text (mx - 1) @ [8230])"

text \<open>
  The update inside \<open>adoptContextId\<close>, the store's renaming of a conversation.
\<close>

definition renameConversation :: "jsstring \<Rightarrow> jsstring \<Rightarrow> conversation list \<Rightarrow> conversation list" where
  "renameConversation oldId newId prev =
     map (\<lambda>c. if conv_id c = oldId then c\<lparr>conv_id := newId\<rparr> else c) prev"

definition adoptContextId :: "jsstring option \<Rightarrow> turn \<times> chat_state \<Rightarrow> turn \<times> chat_state" where
  "adoptContextId gatewayContextId ts =
     (let (t, st) = ts
      in case gatewayContextId of
           None \<Rightarrow> (t, st)
         | Some g \<Rightarrow>
             if g = [] \<or> g = currentConvIdRef t then (t, st)
             else
               (let oldId = currentConvIdRef t
                in (t\<lparr>currentConvIdRef := g\<rparr>,
                    st\<lparr>conversations := renameConversation oldId g (conversations st),
                       activeConvId := Some g\<rparr>)))"

text \<open>
  The first part of \<open>send\<close>, up to the optimistic insertion of the two messages:
  \<open>None\<close> is the early return.
\<close>

definition send_prepare :: "fresh \<Rightarrow> chat_state \<Rightarrow> (turn \<times> chat_state) option" where
  "send_prepare fr st =
     (let text = trim (input st)
      in case selectedAgent st of
           None \<Rightarrow> None
         | Some agent \<Rightarrow>
             if text = [] \<or> isLoading st then None
             else
               (let isNewConv = (case activeConvId st of None \<Rightarrow> True | Some a \<Rightarrow> a = []);
                    lid = (case activeConvId st of
                             None \<Rightarrow> uuid_conv fr
                           | Some a \<Rightarrow> if a = [] then uuid_conv fr else a);
                    userMsg = \<lparr>msg_id = uuid_user fr, msg_role = User, parts = [TextPart text],
                               msg_status = StatusDone, displayText = None, agentName = None,
                               timestamp = date_user fr\<rparr>;
                    agentMsg = \<lparr>msg_id = uuid_agent fr, msg_role = Agent, parts = [],
                                msg_status = StatusSending, displayText = Some [],
                                agentName = Some (card_name agent), timestamp = date_agent fr\<rparr>;
                    now = date_now fr;
                    t = \<lparr>localConvId = lid, agentMsgId = uuid_agent fr,
                         supportsStreaming = (case card_streaming agent of None \<Rightarrow> False | Some b \<Rightarrow> b),
                         currentConvIdRef = lid\<rparr>;
                    st1 = st\<lparr>input := [], isLoading := True\<rparr>
                in if isNewConv then
                     Some (t, st1\<lparr>conversations :=
                                    \<lparr>conv_id = lid, agentId = agent_id agent, title = truncate text 42,
                                     messages = [userMsg, agentMsg], createdAt = now, updatedAt = now\<rparr>
                                    # conversations st1,
                                  activeConvId := Some lid\<rparr>)
                   else
                     Some (t, st1\<lparr>conversations :=
                                    map (\<lambda>c. if conv_id c \<noteq> lid then c
                                             else c\<lparr>messages := messages c @ [userMsg, agentMsg],
                                                  updatedAt := now\<rparr>)
                                      (conversations st1)\<rparr>)))"

text \<open>\<open>err instanceof Error ? err.message : 'Unknown error'\<close>.\<close>

fun catch_text :: "thrown \<Rightarrow> jsstring" where
  "catch_text (ErrorObj m) = m"
| "catch_text (OtherThrown v) = js ''Unknown error''"

text \<open>
  The synchronous branch of \<open>send\<close>: \<open>try\<close> with the result of \<open>sendMessage\<close>, \<open>catch\<close>
  with what it threw, \<open>finally\<close> in both.
\<close>

definition send_settle :: "thrown + send_result \<Rightarrow> turn \<times> chat_state \<Rightarrow> chat_state" where
  "send_settle outcome ts =
     (case outcome of
        Inr result \<Rightarrow>
          (let (t, st) = adoptContextId (sr_contextId result) ts;
               fullText = partsToText (sr_parts result)
           in st\<lparr>conversations :=
                   updateMessage (currentConvIdRef t) (agentMsgId t)
                     (\<lambda>m. m\<lparr>parts := sr_parts result, displayText := Some fullText,
                            msg_status := StatusStreaming\<rparr>)
                     (conversations st),
                 isLoading := False\<rparr>)
      | Inl err \<Rightarrow>
          (let (t, st) = ts;
               msg = catch_text err
           in st\<lparr>conversations :=
                   updateMessage (currentConvIdRef t) (agentMsgId t)
                     (\<lambda>m. m\<lparr>parts := [TextPart (js ''Error: '' @ msg)],
                            displayText := Some (js ''Error: '' @ msg),
                            msg_status := StatusError\<rparr>)
                     (conversations st),
                 isLoading := False\<rparr>))"

text \<open>
  One call of \<open>send\<close> for an agent: rejected by the guard, handed to \<open>streamMessage\<close>
  when the agent streams (the stream itself is the model of the previous section),
  or settled synchronously with \<open>sendMessage\<close>.
\<close>

datatype send_outcome =
    Rejected
  | StreamingTurn turn chat_state
  | SyncTurn chat_state network

definition send :: "fresh \<Rightarrow> network \<Rightarrow> chat_state \<Rightarrow> send_outcome" where
  "send fr net st =
     (case send_prepare fr st of
        None \<Rightarrow> Rejected
      | Some (t, st1) \<Rightarrow>
          if supportsStreaming t then StreamingTurn t st1
          else (let (outcome, net') = sendMessage net
                in SyncTurn (send_settle outcome (t, st1)) net'))"

section \<open>Notions used to state the properties\<close>

subsection \<open>Streams that are not cancelled\<close>

text \<open>
  A caller whose callbacks return without invoking \<open>cancel()\<close>, and the input of a
  stream that starts with a successful response, delivers the given chunks and ends.
\<close>

definition no_cancel :: handler where
  "no_cancel tr = \<lparr>calls_cancel = False, throws = None\<rparr>"

definition graceful :: "jsstring list \<Rightarrow> stream_input" where
  "graceful chunks =
     \<lparr>cancel_during_fetch = False,
      fetch_outcome = FetchResolves True 200 True,
      reads = map (\<lambda>v. Read (Chunk v)) chunks @ [Read EndOfStream]\<rparr>"

text \<open>
  The blocks the successive calls of \<open>processBuffer\<close> hand to its loop, from the
  buffer left by the chunks before: each chunk's complete blocks, then those of the
  flush at the end of the stream.
\<close>

fun stream_blocks :: "jsstring \<Rightarrow> jsstring list \<Rightarrow> jsstring list" where
  "stream_blocks buf [] =
     (if trim buf \<noteq> [] then snd (pop (js_split [10, 10] (normalize (buf @ [10, 10])))) else [])"
| "stream_blocks buf (v # vs) =
     snd (pop (js_split [10, 10] (normalize (buf @ v))))
     @ stream_blocks (fst (pop (js_split [10, 10] (normalize (buf @ v))))) vs"

text \<open>
  The payload a block is decoded to, if it is not skipped; the payloads of a list of
  blocks; the callbacks they are dispatched to.
\<close>

definition block_payload :: "jsstring \<Rightarrow> json option" where
  "block_payload b =
     (if trim b = [] then None
      else if block_raw b = [] \<or> block_raw b = js ''[DONE]'' then None
      else JSON_parse (block_raw b))"

definition decoded :: "jsstring list \<Rightarrow> json list" where
  "decoded bs = List.map_filter block_payload bs"

definition dispatched :: "json list \<Rightarrow> callback list" where
  "dispatched ps = List.map_filter dispatchSseEvent ps"

text \<open>
  The context identifier a payload supplies: the truthy \<open>contextId\<close> of the payload
  after unwrapping. The first one that a list of payloads supplies.
\<close>

definition payload_context_id :: "json \<Rightarrow> json option" where
  "payload_context_id p =
     (if truthy p \<and> typeof_object p then
        (case get_prop (unwrap p) (js ''contextId'') of
           None \<Rightarrow> None
         | Some cid \<Rightarrow> if truthy cid then Some cid else None)
      else None)"

definition first_context_id :: "json list \<Rightarrow> json option" where
  "first_context_id ps =
     (case List.map_filter payload_context_id ps of [] \<Rightarrow> None | cid # cids \<Rightarrow> Some cid)"

subsection \<open>Terminal callbacks and streams that settle\<close>

fun is_terminal :: "callback \<Rightarrow> bool" where
  "is_terminal (OnDone cid) = True"
| "is_terminal (OnError m) = True"
| "is_terminal cb = False"




text \<open>No callback is fired after \<open>cancel()\<close> was invoked.\<close>

fun silent_after_cancel :: "obs list \<Rightarrow> bool" where
  "silent_after_cancel [] = True"
| "silent_after_cancel (CancelCalled # tr) = list_all (\<lambda>x. x = CancelCalled) tr"
| "silent_after_cancel (Fired cb # tr) = silent_after_cancel tr"

definition consistent :: "stream_state \<Rightarrow> bool" where
  "consistent st =
     (silent_after_cancel (trace st) \<and> (aborted st \<or> CancelCalled \<notin> set (trace st)))"

fun is_progress :: "obs \<Rightarrow> bool" where
  "is_progress (Fired cb) = (\<not> is_terminal cb)"
| "is_progress CancelCalled = False"

definition live :: "stream_state \<Rightarrow> bool" where
  "live st = (\<not> aborted st \<and> list_all is_progress (trace st))"



text \<open>
  The context identifier after a list of payloads, from the one held before them.
\<close>

definition captured :: "json option \<Rightarrow> json list \<Rightarrow> json option" where
  "captured first ps = foldl (\<lambda>f p. capture p f) first ps"

subsection \<open>The context identifier as the specification words it\<close>

text \<open>
  The specification's reading of the canonical context identifier: the first
  non-null context identifier observed in any decoded event, at the top level of
  the payload (before unwrapping) or in the unwrapped payload.
\<close>

definition non_null :: "json option \<Rightarrow> bool" where
  "non_null v = (v \<noteq> None \<and> v \<noteq> Some JNull)"

definition observed_context_ids :: "json \<Rightarrow> json list" where
  "observed_context_ids p =
     List.map_filter id
       (filter non_null [get_prop p (js ''contextId''), get_prop (unwrap p) (js ''contextId'')])"

definition spec_context_id :: "json list \<Rightarrow> json option" where
  "spec_context_id ps =
     (case concat (map observed_context_ids ps) of [] \<Rightarrow> None | cid # cids \<Rightarrow> Some cid)"

subsection \<open>The state a call of send leaves\<close>

fun outcome_state :: "send_outcome \<Rightarrow> chat_state option" where
  "outcome_state Rejected = None"
| "outcome_state (StreamingTurn t st) = Some st"
| "outcome_state (SyncTurn st net) = Some st"

subsection \<open>Concrete inputs\<close>

text \<open>A text part as the gateway sends it, and as the store holds it.\<close>

definition text_json :: "string \<Rightarrow> json" where
  "text_json s = JObj [(js ''kind'', JStr (js ''text'')), (js ''text'', JStr (js s))]"

definition message_json :: "string \<Rightarrow> json" where
  "message_json s = JObj [(js ''kind'', JStr (js ''message'')), (js ''parts'', JArr [text_json s])]"

text \<open>
  A message whose JSON is spread over two \<open>data: \<close> lines that end in CRLF, cut
  between the CR and the LF of the first line end.
\<close>

definition crlf_head :: jsstring where
  \<open>crlf_head = js ''data: {"kind":"message",'' @ [13]\<close>

definition crlf_tail :: jsstring where
  \<open>crlf_tail = [10] @ js ''data: "parts":[{"kind":"text","text":"hi"}]}'' @ [13, 10, 13, 10]\<close>

text \<open>
  A JSON-RPC envelope with a context identifier at its top level and none in its
  result.
\<close>

definition envelope_chunk :: jsstring where
  \<open>envelope_chunk =
     js ''data: {"jsonrpc":"2.0","contextId":"top","result":{"kind":"message","parts":[{"kind":"text","text":"hi"}]}}''
     @ [10, 10]\<close>

definition envelope_payload :: json where
  "envelope_payload =
     JObj [(js ''jsonrpc'', JStr (js ''2.0'')), (js ''contextId'', JStr (js ''top'')),
           (js ''result'', message_json ''hi'')]"

text \<open>A JSON-RPC envelope whose result carries the context identifier.\<close>

definition nested_chunk :: jsstring where
  \<open>nested_chunk =
     js ''data: {"jsonrpc":"2.0","result":{"kind":"status-update","contextId":"srv-9","status":{"state":"working"}}}''
     @ [10, 10]\<close>

definition nested_payload :: json where
  "nested_payload =
     JObj [(js ''jsonrpc'', JStr (js ''2.0'')),
           (js ''result'',
            JObj [(js ''kind'', JStr (js ''status-update'')), (js ''contextId'', JStr (js ''srv-9'')),
                  (js ''status'', JObj [(js ''state'', JStr (js ''working''))])])]"

text \<open>Three blocks, the second of which is not JSON.\<close>

definition garbled_chunk :: jsstring where
  \<open>garbled_chunk =
     js ''data: {"kind":"message","parts":[{"kind":"text","text":"a"}]}'' @ [10, 10]
     @ js ''data: {nope'' @ [10, 10]
     @ js ''data: {"kind":"message","parts":[{"kind":"text","text":"b"}]}'' @ [10, 10]\<close>

text \<open>
  A payload of a kind the client does not know, with a context identifier, before
  a message with another one.
\<close>

definition unknown_kind_chunk :: jsstring where
  \<open>unknown_kind_chunk =
     js ''data: {"kind":"task","contextId":"ctx-7"}'' @ [10, 10]
     @ js ''data: {"kind":"message","contextId":"ctx-8","parts":[{"kind":"text","text":"a"}]}'' @ [10, 10]\<close>

definition task_payload :: json where
  "task_payload = JObj [(js ''kind'', JStr (js ''task'')), (js ''contextId'', JStr (js ''ctx-7''))]"

definition later_payload :: json where
  "later_payload =
     JObj [(js ''kind'', JStr (js ''message'')), (js ''contextId'', JStr (js ''ctx-8'')),
           (js ''parts'', JArr [text_json ''a''])]"




text \<open>
  A payload of a kind the client does not know, whose context identifier is the
  empty string, before a message with a context identifier.
\<close>

definition empty_id_chunk :: jsstring where
  \<open>empty_id_chunk =
     js ''data: {"kind":"task","contextId":""}'' @ [10, 10]
     @ js ''data: {"kind":"message","contextId":"ctx-8","parts":[{"kind":"text","text":"a"}]}'' @ [10, 10]\<close>

definition empty_id_payload :: json where
  "empty_id_payload = JObj [(js ''kind'', JStr (js ''task'')), (js ''contextId'', JStr [])]"


text \<open>A store of two conversations, and a turn of the first.\<close>

definition conv_local :: conversation where
  "conv_local =
     \<lparr>conv_id = js ''local-3'', agentId = js ''bot'', title = js ''hello'',
      messages = [], createdAt = 1, updatedAt = 1\<rparr>"

definition conv_server :: conversation where
  "conv_server =
     \<lparr>conv_id = js ''srv-9'', agentId = js ''bot'', title = js ''earlier'',
      messages = [], createdAt = 0, updatedAt = 0\<rparr>"

definition two_convs :: chat_state where
  "two_convs =
     \<lparr>conversations = [conv_local, conv_server], activeConvId = Some (js ''local-3''),
      selectedAgent = None, input = [], isLoading = True\<rparr>"

definition turn_local :: turn where
  "turn_local =
     \<lparr>localConvId = js ''local-3'', agentMsgId = js ''m-2'', supportsStreaming = False,
      currentConvIdRef = js ''local-3''\<rparr>"

text \<open>
  A fresh session with an agent that does not stream, the user's input, and a
  gateway that answers every request with status 500.
\<close>

definition plain_agent :: agent_option where
  "plain_agent = \<lparr>agent_id = js ''bot'', card_name = js ''Bot'', card_streaming = Some False\<rparr>"

definition fresh_session :: chat_state where
  "fresh_session =
     \<lparr>conversations = [], activeConvId = None, selectedAgent = Some plain_agent,
      input = js '' hello '', isLoading = False\<rparr>"

definition fresh_values :: fresh where
  "fresh_values =
     \<lparr>uuid_conv = js ''local-1'', uuid_user = js ''m-1'', uuid_agent = js ''m-2'',
      date_user = 5, date_agent = 5, date_now = 5\<rparr>"

definition gateway_500 :: network where
  "gateway_500 =
     \<lparr>exchanges = (\<lambda>n. Inr \<lparr>ok = False, status = 500, json_body = Inl (ErrorObj [])\<rparr>),
      requests = 0\<rparr>"





text \<open>A session whose input is 48 code units long after trimming.\<close>

definition long_input :: jsstring where
  "long_input = js ''  this message is longer than forty-two code units ''"

definition long_session :: chat_state where
  "long_session = fresh_session\<lparr>input := long_input\<rparr>"


section \<open>Lemmas about the stream\<close>

subsection \<open>Cancellation and the terminal callback\<close>







lemma consistent_field_updates [simp]:
  "consistent (st\<lparr>buffer := b\<rparr>) = consistent st"
  "consistent (st\<lparr>firstContextId := c\<rparr>) = consistent st"
  by (simp_all add: consistent_def)









lemma live_field_updates [simp]:
  "live (st\<lparr>buffer := b\<rparr>) = live st"
  "live (st\<lparr>firstContextId := c\<rparr>) = live st"
  by (simp_all add: live_def)













subsection \<open>A stream that is not cancelled\<close>

lemma fire_no_cancel: "fire no_cancel cb st = (st\<lparr>trace := trace st @ [Fired cb]\<rparr>, None)"
  by (simp add: fire_def no_cancel_def Let_def)

lemma decoded_Cons:
  "decoded (b # bs) = (case block_payload b of None \<Rightarrow> decoded bs | Some p \<Rightarrow> p # decoded bs)"
  by (simp add: decoded_def List.map_filter_simps split: option.splits)

lemma decoded_Nil: "decoded [] = []"
  by (simp add: decoded_def List.map_filter_simps)

lemma decoded_append: "decoded (as @ bs) = decoded as @ decoded bs"
  by (simp add: decoded_def map_filter_def)

lemma dispatched_append: "dispatched (ps @ qs) = dispatched ps @ dispatched qs"
  by (simp add: dispatched_def map_filter_def)

lemma dispatched_Cons:
  "dispatched (p # ps) = (case dispatchSseEvent p of None \<Rightarrow> dispatched ps | Some cb \<Rightarrow> cb # dispatched ps)"
  by (simp add: dispatched_def List.map_filter_simps split: option.splits)

lemma dispatched_Nil: "dispatched [] = []"
  by (simp add: dispatched_def List.map_filter_simps)

lemma process_events_no_cancel:
  "\<not> aborted st \<Longrightarrow>
   process_events no_cancel bs st
   = (st\<lparr>firstContextId := captured (firstContextId st) (decoded bs),
         trace := trace st @ map Fired (dispatched (decoded bs))\<rparr>, None)"
proof (induction bs arbitrary: st)
  case Nil
  then show ?case by (simp add: decoded_Nil dispatched_Nil captured_def)
next
  case (Cons b bs)
  show ?case
  proof (cases "block_payload b")
    case None
    then have "process_events no_cancel (b # bs) st = process_events no_cancel bs st"
      by (auto simp: block_payload_def split: if_splits)
    then show ?thesis using Cons None by (simp add: decoded_Cons)
  next
    case (Some p)
    then have p: "trim b \<noteq> []" "block_raw b \<noteq> []" "block_raw b \<noteq> js ''[DONE]''"
      "JSON_parse (block_raw b) = Some p"
      by (auto simp: block_payload_def split: if_splits)
    let ?st1 = "st\<lparr>firstContextId := capture p (firstContextId st)\<rparr>"
    show ?thesis
    proof (cases "dispatchSseEvent p")
      case None
      have "process_events no_cancel (b # bs) st = process_events no_cancel bs ?st1"
        using p None Cons.prems by simp
      also have "\<dots> = (?st1\<lparr>firstContextId := captured (firstContextId ?st1) (decoded bs),
                  trace := trace ?st1 @ map Fired (dispatched (decoded bs))\<rparr>, None)"
        using Cons.prems by (intro Cons.IH) simp
      finally show ?thesis using Some None
        by (simp add: decoded_Cons dispatched_Cons captured_def)
    next
      case (Some cb)
      let ?st2 = "?st1\<lparr>trace := trace ?st1 @ [Fired cb]\<rparr>"
      have na: "\<not> aborted ?st2" using Cons.prems by simp
      have "process_events no_cancel (b # bs) st = process_events no_cancel bs ?st2"
        using p Some Cons.prems by (simp add: fire_no_cancel)
      also have "\<dots> = (?st2\<lparr>firstContextId := captured (firstContextId ?st2) (decoded bs),
                  trace := trace ?st2 @ map Fired (dispatched (decoded bs))\<rparr>, None)"
        using na by (rule Cons.IH)
      finally show ?thesis using Some \<open>block_payload b = Some p\<close>
        by (simp add: decoded_Cons dispatched_Cons captured_def)
    qed
  qed
qed

lemma processBuffer_no_cancel:
  "\<not> aborted st \<Longrightarrow>
   processBuffer no_cancel st
   = (st\<lparr>buffer := fst (pop (js_split [10, 10] (normalize (buffer st)))),
         firstContextId := captured (firstContextId st)
                             (decoded (snd (pop (js_split [10, 10] (normalize (buffer st)))))),
         trace := trace st @ map Fired (dispatched (decoded (snd (pop (js_split [10, 10] (normalize (buffer st)))))))\<rparr>,
      None)"
  by (simp add: processBuffer_def Let_def process_events_no_cancel split: prod.splits)

lemma captured_append: "captured f (ps @ qs) = captured (captured f ps) qs"
  by (simp add: captured_def)

lemma read_loop_no_cancel:
  "\<not> aborted st \<Longrightarrow>
   trace (read_loop no_cancel (map (\<lambda>v. Read (Chunk v)) vs @ [Read EndOfStream]) st)
   = trace st @ map Fired (dispatched (decoded (stream_blocks (buffer st) vs)))
     @ [Fired (OnDone (captured (firstContextId st) (decoded (stream_blocks (buffer st) vs))))]"
proof (induction vs arbitrary: st)
  case Nil
  then show ?case
    by (simp add: Let_def processBuffer_no_cancel fire_no_cancel decoded_Nil dispatched_Nil captured_def)
next
  case (Cons v vs)
  let ?st1 = "fst (processBuffer no_cancel (st\<lparr>buffer := buffer st @ v\<rparr>))"
  have na: "\<not> aborted ?st1" using Cons.prems by (simp add: processBuffer_no_cancel)
  have "trace (read_loop no_cancel (map (\<lambda>v. Read (Chunk v)) (v # vs) @ [Read EndOfStream]) st)
        = trace (read_loop no_cancel (map (\<lambda>v. Read (Chunk v)) vs @ [Read EndOfStream]) ?st1)"
    using Cons.prems by (simp add: processBuffer_no_cancel)
  also note Cons.IH [OF na]
  finally show ?case using Cons.prems
    by (simp add: processBuffer_no_cancel decoded_append dispatched_append captured_append)
qed

lemma capture_None: "capture p None = payload_context_id p"
  by (auto simp: capture_def payload_context_id_def opt_truthy_def Let_def split: option.splits)

lemma capture_Some: "truthy c \<Longrightarrow> capture p (Some c) = Some c"
  by (simp add: capture_def opt_truthy_def Let_def)

lemma payload_context_id_truthy: "payload_context_id p = Some c \<Longrightarrow> truthy c"
  by (auto simp: payload_context_id_def split: if_splits option.splits)

lemma captured_Some: "truthy c \<Longrightarrow> captured (Some c) ps = Some c"
  by (induction ps) (simp_all add: captured_def capture_Some)

lemma first_context_id_Cons:
  "first_context_id (p # ps) = (case payload_context_id p of None \<Rightarrow> first_context_id ps | Some c \<Rightarrow> Some c)"
  by (simp add: first_context_id_def List.map_filter_simps split: option.splits)

lemma first_context_id_Nil: "first_context_id [] = None"
  by (simp add: first_context_id_def List.map_filter_simps)

lemma captured_None: "captured None ps = first_context_id ps"
proof (induction ps)
  case Nil
  then show ?case by (simp add: captured_def first_context_id_def List.map_filter_simps)
next
  case (Cons p ps)
  show ?case
  proof (cases "payload_context_id p")
    case None
    then show ?thesis using Cons
      by (simp add: first_context_id_Cons captured_def capture_None)
  next
    case (Some c)
    then have "truthy c" by (rule payload_context_id_truthy)
    then have "captured (Some c) ps = Some c" by (rule captured_Some)
    then show ?thesis using Some
      by (simp add: first_context_id_Cons captured_def capture_None)
  qed
qed

lemma graceful_run:
  "streamMessage no_cancel (graceful chunks)
   = map Fired (dispatched (decoded (stream_blocks [] chunks)))
     @ [Fired (OnDone (first_context_id (decoded (stream_blocks [] chunks))))]"
proof -
  have "\<not> aborted initial_state" by (simp add: initial_state_def)
  from read_loop_no_cancel[OF this, of chunks]
  show ?thesis
    by (simp add: streamMessage_def graceful_def Let_def initial_state_def captured_None)
qed

subsection \<open>Where the chunks are cut\<close>

text \<open>
  Splitting at blank lines goes from left to right, so the pieces of a text that
  is continued are the complete pieces of what came first, followed by the pieces
  of its last piece continued. Normalizing commutes with appending unless the first
  text ends in CR.
\<close>

lemma js_split_nonempty: "js_split sep s \<noteq> []"
  by (induction sep s rule: js_split.induct) (auto split: list.splits)

lemma js_split_single: "js_split sep s = [p] \<Longrightarrow> p = s"
  by (induction sep s arbitrary: p rule: js_split.induct)
     (auto simp: js_split_nonempty split: if_splits list.splits)

lemma split_blank_match: "js_split [10, 10] (10 # 10 # s) = [] # js_split [10, 10] s"
  by simp

lemma split_blank_other:
  "c \<noteq> 10 \<or> s = [] \<or> hd s \<noteq> 10 \<Longrightarrow>
   js_split [10, 10] (c # s)
   = (case js_split [10, 10] s of [] \<Rightarrow> [[c]] | p # ps \<Rightarrow> (c # p) # ps)"
  by (cases s) auto

lemma js_split_append:
  "js_split [10, 10] (a @ b)
   = butlast (js_split [10, 10] a) @ js_split [10, 10] (last (js_split [10, 10] a) @ b)"
proof (induction a rule: length_induct)
  case (1 a)
  show ?case
  proof (cases a)
    case Nil
    then show ?thesis by simp
  next
    case (Cons c s)
    show ?thesis
    proof (cases "c = 10 \<and> s \<noteq> [] \<and> hd s = 10")
      case True
      then obtain s' where s: "s = 10 # s'" and c: "c = 10"
        by (cases s) auto
      have ne: "js_split [10, 10] s' \<noteq> []" by (rule js_split_nonempty)
      have "length s' < length a" using Cons s by simp
      then have "js_split [10, 10] (s' @ b)
          = butlast (js_split [10, 10] s') @ js_split [10, 10] (last (js_split [10, 10] s') @ b)"
        using 1 by blast
      then show ?thesis
        unfolding Cons s c using ne
        by (simp only: append_Cons split_blank_match butlast.simps last.simps if_False)
    next
      case False
      then have no: "c \<noteq> 10 \<or> s = [] \<or> hd s \<noteq> 10" by blast
      obtain p ps where sp: "js_split [10, 10] s = p # ps"
        using js_split_nonempty [of "[10, 10]" s] by (cases "js_split [10, 10] s") auto
      have cs: "js_split [10, 10] (c # s) = (c # p) # ps"
        unfolding split_blank_other [OF no] sp by simp
      show ?thesis
      proof (cases ps)
        case Nil
        then have "p = s" using sp js_split_single by blast
        then show ?thesis unfolding Cons cs Nil by (simp del: js_split.simps)
      next
        case ps: (Cons q qs)
        then have "s \<noteq> []" using sp by (cases s) auto
        then have no': "c \<noteq> 10 \<or> s @ b = [] \<or> hd (s @ b) \<noteq> 10" using no by auto
        have "length s < length a" using Cons by simp
        then have ih: "js_split [10, 10] (s @ b)
            = butlast (js_split [10, 10] s) @ js_split [10, 10] (last (js_split [10, 10] s) @ b)"
          using 1 by blast
        have "js_split [10, 10] (c # (s @ b))
              = (c # p) # butlast (q # qs) @ js_split [10, 10] (last (q # qs) @ b)"
          unfolding split_blank_other [OF no'] ih sp ps by (simp del: js_split.simps)
        then show ?thesis unfolding Cons cs ps by (simp del: js_split.simps)
      qed
    qed
  qed
qed


lemma replace_crlf_append:
  "a = [] \<or> last a \<noteq> 13 \<Longrightarrow> replace_crlf (a @ b) = replace_crlf a @ replace_crlf b"
  apply (induction a rule: replace_crlf.induct)
  subgoal for x y s by (cases "s = []") auto
  subgoal by simp
  subgoal for x by (cases b) auto
  done

lemma normalize_append:
  "a = [] \<or> last a \<noteq> 13 \<Longrightarrow> normalize (a @ b) = normalize a @ normalize b"
  by (simp add: normalize_def replace_crlf_append replace_cr_def)

lemma replace_crlf_id: "13 \<notin> set s \<Longrightarrow> replace_crlf s = s"
  by (induction s rule: replace_crlf.induct) auto

lemma replace_cr_id: "13 \<notin> set s \<Longrightarrow> replace_cr s = s"
  unfolding replace_cr_def by (induction s) auto

lemma normalize_id: "13 \<notin> set s \<Longrightarrow> normalize s = s"
  by (simp add: normalize_def replace_crlf_id replace_cr_id)

lemma normalize_no_cr: "13 \<notin> set (normalize s)"
  by (auto simp: normalize_def replace_cr_def)

lemma js_split_pieces: "p \<in> set (js_split sep s) \<Longrightarrow> set p \<subseteq> set s"
proof (induction sep s arbitrary: p rule: js_split.induct)
  case (1 sep)
  then show ?case by simp
next
  case (2 sep c s)
  show ?case
  proof (cases "sep \<noteq> [] \<and> take (length sep) (c # s) = sep")
    case True
    then have "p = [] \<or> p \<in> set (js_split sep (drop (length sep) (c # s)))"
      using 2(3) by auto
    then show ?thesis
    proof
      assume "p = []" then show ?thesis by simp
    next
      assume "p \<in> set (js_split sep (drop (length sep) (c # s)))"
      then have "set p \<subseteq> set (drop (length sep) (c # s))" using 2(1) True by blast
      then show ?thesis using set_drop_subset by fastforce
    qed
  next
    case False
    obtain q qs where sp: "js_split sep s = q # qs"
      using js_split_nonempty [of sep s] by (cases "js_split sep s") auto
    then have "p = c # q \<or> p \<in> set qs" using 2(3) False by auto
    moreover have "set q \<subseteq> set s" using 2(2) [OF False, of q] sp by simp
    moreover have "p \<in> set qs \<Longrightarrow> set p \<subseteq> set s" using 2(2) [OF False, of p] sp by simp
    ultimately show ?thesis by auto
  qed
qed

lemma js_split_last_single:
  "js_split [10, 10] (last (js_split [10, 10] s)) = [last (js_split [10, 10] s)]"
proof -
  have "js_split [10, 10] s
        = butlast (js_split [10, 10] s) @ js_split [10, 10] (last (js_split [10, 10] s))"
    using js_split_append [of s "[]"] by simp
  moreover have "js_split [10, 10] s = butlast (js_split [10, 10] s) @ [last (js_split [10, 10] s)]"
    using js_split_nonempty by simp
  ultimately show ?thesis by (metis same_append_eq)
qed

lemma pop_js_split:
  "pop (js_split sep s) = (last (js_split sep s), butlast (js_split sep s))"
  using js_split_nonempty [of sep s] by (cases "js_split sep s") (simp_all add: pop_def)

lemma stream_blocks_buffered:
  assumes "13 \<notin> set buf" and "js_split [10, 10] buf = [buf]"
    and "\<forall>v \<in> set vs. v = [] \<or> last v \<noteq> 13"
  shows "stream_blocks buf vs
         = butlast (js_split [10, 10] (buf @ normalize (concat vs)))
           @ stream_blocks (last (js_split [10, 10] (buf @ normalize (concat vs)))) []"
  using assms
proof (induction vs arbitrary: buf)
  case Nil
  then show ?case by (simp add: normalize_def replace_cr_def del: stream_blocks.simps)
next
  case (Cons v vs)
  let ?S = "js_split [10, 10] (buf @ normalize v)"
  let ?r = "last ?S"
  let ?N = "normalize (concat vs)"
  have b: "buf = [] \<or> last buf \<noteq> 13"
  proof (cases "buf = []")
    case False
    then have "last buf \<in> set buf" by (rule last_in_set)
    with Cons.prems(1) show ?thesis by metis
  qed simp
  have nb: "normalize (buf @ v) = buf @ normalize v"
    using normalize_append [OF b] normalize_id [OF Cons.prems(1)] by simp
  have v: "v = [] \<or> last v \<noteq> 13" using Cons.prems(3) by simp
  have nv: "normalize (concat (v # vs)) = normalize v @ ?N"
    using normalize_append [OF v] by simp
  have "?r \<in> set ?S" using js_split_nonempty by simp
  then have "set ?r \<subseteq> set (buf @ normalize v)" by (rule js_split_pieces)
  then have r1: "13 \<notin> set ?r" using Cons.prems(1) normalize_no_cr [of v] by auto
  have r2: "js_split [10, 10] ?r = [?r]" by (rule js_split_last_single)
  have ih: "stream_blocks ?r vs
            = butlast (js_split [10, 10] (?r @ ?N))
              @ stream_blocks (last (js_split [10, 10] (?r @ ?N))) []"
    using Cons.IH [OF r1 r2] Cons.prems(3) by simp
  have sp: "js_split [10, 10] (buf @ normalize (concat (v # vs)))
            = butlast ?S @ js_split [10, 10] (?r @ ?N)"
    unfolding nv using js_split_append [of "buf @ normalize v" ?N] by simp
  have ne: "js_split [10, 10] (?r @ ?N) \<noteq> []" by (rule js_split_nonempty)
  have "stream_blocks buf (v # vs) = butlast ?S @ stream_blocks ?r vs"
    by (simp add: nb pop_js_split)
  also have "\<dots> = butlast ?S @ butlast (js_split [10, 10] (?r @ ?N))
                   @ stream_blocks (last (js_split [10, 10] (?r @ ?N))) []"
    unfolding ih by simp
  also have "\<dots> = butlast (js_split [10, 10] (buf @ normalize (concat (v # vs))))
                   @ stream_blocks (last (js_split [10, 10] (buf @ normalize (concat (v # vs))))) []"
    unfolding sp using ne by (simp add: butlast_append del: stream_blocks.simps)
  finally show ?case .
qed

lemma stream_blocks_chunking:
  assumes "\<forall>v \<in> set vs. v = [] \<or> last v \<noteq> 13"
  shows "stream_blocks [] vs = stream_blocks [] [concat vs]"
proof -
  have "stream_blocks [] vs
        = butlast (js_split [10, 10] ([] @ normalize (concat vs)))
          @ stream_blocks (last (js_split [10, 10] ([] @ normalize (concat vs)))) []"
    using assms by (intro stream_blocks_buffered) simp_all
  also have "\<dots> = stream_blocks [] [concat vs]"
    by (simp add: pop_js_split del: stream_blocks.simps(1))
  finally show ?thesis .
qed

text \<open>
  A stream whose chunks do not end in CR is decoded as if it came in one chunk.
\<close>

lemma chunking_without_cut_crlf:
  assumes "\<forall>v \<in> set vs. v = [] \<or> last v \<noteq> 13"
  shows "streamMessage no_cancel (graceful vs) = streamMessage no_cancel (graceful [concat vs])"
  by (simp only: graceful_run stream_blocks_chunking [OF assms])

subsection \<open>The concrete streams, evaluated\<close>

lemmas parse_defs = js_def JSON_parse_def skip_ws_def is_json_ws_def is_digit_def hex_val_def
  unescape_def parse_number_def parse_int_part_def parse_frac_def parse_exp_def parse_digits_def

lemmas block_defs = block_payload_def block_raw_def data_lines_def startsWith_def trim_def
  is_js_space_def

lemmas blocks_defs = js_def normalize_def replace_cr_def pop_def trim_def is_js_space_def

lemmas probe_defs = js_def dispatchSseEvent_def payload_context_id_def unwrap_def opt_prop_def
  text_json_def message_json_def Let_def

lemmas decoded_simps = decoded_Cons decoded_Nil option.case

lemmas run_simps = dispatched_Cons dispatched_Nil first_context_id_Cons first_context_id_Nil
  option.case list.map append.simps

text \<open>Blocks and their payloads.\<close>

lemma message_a_block:
  \<open>block_payload (js ''data: {"kind":"message","parts":[{"kind":"text","text":"a"}]}'') = Some (message_json ''a'')\<close>
  by (simp add: block_defs parse_defs text_json_def message_json_def)

lemma message_b_block:
  \<open>block_payload (js ''data: {"kind":"message","parts":[{"kind":"text","text":"b"}]}'') = Some (message_json ''b'')\<close>
  by (simp add: block_defs parse_defs text_json_def message_json_def)

lemma nope_block:
  \<open>block_payload (js ''data: {nope'') = None\<close>
  by (simp add: block_defs parse_defs )

lemma envelope_block:
  \<open>block_payload (js ''data: {"jsonrpc":"2.0","contextId":"top","result":{"kind":"message","parts":[{"kind":"text","text":"hi"}]}}'') = Some envelope_payload\<close>
  by (simp add: block_defs parse_defs text_json_def message_json_def envelope_payload_def)

lemma nested_block:
  \<open>block_payload (js ''data: {"jsonrpc":"2.0","result":{"kind":"status-update","contextId":"srv-9","status":{"state":"working"}}}'') = Some nested_payload\<close>
  by (simp add: block_defs parse_defs nested_payload_def)

lemma task_block:
  \<open>block_payload (js ''data: {"kind":"task","contextId":"ctx-7"}'') = Some task_payload\<close>
  by (simp add: block_defs parse_defs task_payload_def)

lemma later_block:
  \<open>block_payload (js ''data: {"kind":"message","contextId":"ctx-8","parts":[{"kind":"text","text":"a"}]}'') = Some later_payload\<close>
  by (simp add: block_defs parse_defs text_json_def later_payload_def)

lemma crlf_first_block:
  \<open>block_payload (js ''data: {"kind":"message",'') = None\<close>
  by (simp add: block_defs parse_defs )

lemma crlf_second_block:
  \<open>block_payload (js ''data: "parts":[{"kind":"text","text":"hi"}]}'') = None\<close>
  by (simp add: block_defs parse_defs )

lemma crlf_whole_block:
  \<open>block_payload (js ''data: {"kind":"message",'' @ [10] @ js ''data: "parts":[{"kind":"text","text":"hi"}]}'')
   = Some (message_json ''hi'')\<close>
  by (simp add: block_defs parse_defs text_json_def message_json_def)

text \<open>What the payloads are dispatched to, and the context identifier they supply.\<close>

lemma message_dispatch: "dispatchSseEvent (message_json s) = Some (OnPart (JArr [text_json s]))"
  by (simp add: probe_defs)

lemma message_context: "payload_context_id (message_json s) = None"
  by (simp add: probe_defs)

lemma envelope_dispatch: "dispatchSseEvent envelope_payload = Some (OnPart (JArr [text_json ''hi'']))"
  by (simp add: probe_defs envelope_payload_def)

lemma envelope_context: "payload_context_id envelope_payload = None"
  by (simp add: probe_defs envelope_payload_def)

lemma envelope_observed: "spec_context_id [envelope_payload] = Some (JStr (js ''top''))"
  by (simp add: spec_context_id_def observed_context_ids_def non_null_def probe_defs
      envelope_payload_def List.map_filter_simps)

lemma nested_dispatch: "dispatchSseEvent nested_payload = Some OnWorking"
  by (simp add: probe_defs nested_payload_def)

lemma nested_context: "payload_context_id nested_payload = Some (JStr (js ''srv-9''))"
  by (simp add: probe_defs nested_payload_def)

lemma later_dispatch: "dispatchSseEvent later_payload = Some (OnPart (JArr [text_json ''a'']))"
  by (simp add: probe_defs later_payload_def)

text \<open>The blocks of the streams and what they decode to.\<close>

lemma crlf_whole_blocks:
  \<open>stream_blocks [] [crlf_head @ crlf_tail]
   = [js ''data: {"kind":"message",'' @ [10] @ js ''data: "parts":[{"kind":"text","text":"hi"}]}'']\<close>
  by (simp add: crlf_head_def crlf_tail_def blocks_defs)

lemma crlf_cut_blocks:
  \<open>stream_blocks [] [crlf_head, crlf_tail]
   = [js ''data: {"kind":"message",'', js ''data: "parts":[{"kind":"text","text":"hi"}]}'']\<close>
  by (simp add: crlf_head_def crlf_tail_def blocks_defs)

lemma crlf_whole_decoded: "decoded (stream_blocks [] [crlf_head @ crlf_tail]) = [message_json ''hi'']"
  by (simp only: crlf_whole_blocks decoded_simps crlf_whole_block)

lemma crlf_cut_decoded: "decoded (stream_blocks [] [crlf_head, crlf_tail]) = []"
  by (simp only: crlf_cut_blocks decoded_simps crlf_first_block crlf_second_block)

lemma envelope_blocks:
  \<open>stream_blocks [] [envelope_chunk] = [js ''data: {"jsonrpc":"2.0","contextId":"top","result":{"kind":"message","parts":[{"kind":"text","text":"hi"}]}}'']\<close>
  by (simp add: envelope_chunk_def blocks_defs)

lemma envelope_decoded: "decoded (stream_blocks [] [envelope_chunk]) = [envelope_payload]"
  by (simp only: envelope_blocks decoded_simps envelope_block)

lemma nested_blocks:
  \<open>stream_blocks [] [nested_chunk] = [js ''data: {"jsonrpc":"2.0","result":{"kind":"status-update","contextId":"srv-9","status":{"state":"working"}}}'']\<close>
  by (simp add: nested_chunk_def blocks_defs)

lemma nested_decoded: "decoded (stream_blocks [] [nested_chunk]) = [nested_payload]"
  by (simp only: nested_blocks decoded_simps nested_block)

lemma garbled_blocks:
  \<open>stream_blocks [] [garbled_chunk]
   = [js ''data: {"kind":"message","parts":[{"kind":"text","text":"a"}]}''] @ js ''data: {nope'' # [js ''data: {"kind":"message","parts":[{"kind":"text","text":"b"}]}'']\<close>
  by (simp add: garbled_chunk_def blocks_defs)

lemma unknown_kind_blocks:
  \<open>stream_blocks [] [unknown_kind_chunk] = [js ''data: {"kind":"task","contextId":"ctx-7"}'', js ''data: {"kind":"message","contextId":"ctx-8","parts":[{"kind":"text","text":"a"}]}'']\<close>
  by (simp add: unknown_kind_chunk_def blocks_defs)

lemma unknown_kind_decoded:
  "decoded (stream_blocks [] [unknown_kind_chunk]) = [] @ task_payload # [later_payload]"
  by (simp only: unknown_kind_blocks decoded_simps task_block later_block append.simps)




section \<open>streamMessage: the claims\<close>

text \<open>
  C1. Decoding is not insensitive to where the chunks are cut. A message whose JSON
  is spread over two \<open>data: \<close> lines ending in CRLF is dispatched to \<open>onPart\<close> when the
  bytes arrive in one chunk. Cut between the CR and the LF of the first line end,
  the same bytes give no \<open>onPart\<close>: the CR at the end of the first chunk is turned
  into a line feed and kept in the buffer, the LF that opens the second chunk makes
  it a blank line, and the two halves are parsed as two blocks, neither of which is
  JSON.
\<close>

theorem crlf_cut_changes_callbacks:
  "streamMessage no_cancel (graceful [crlf_head @ crlf_tail])
     = [Fired (OnPart (JArr [text_json ''hi''])), Fired (OnDone None)]
   \<and> streamMessage no_cancel (graceful [crlf_head, crlf_tail]) = [Fired (OnDone None)]"
  by (simp only: graceful_run crlf_whole_decoded crlf_cut_decoded run_simps message_dispatch
      message_context simp_thms)











text \<open>
  C4, as the code has it. For a stream that is not cancelled and ends, the context
  identifier passed to \<open>onDone\<close> is the first truthy \<open>contextId\<close> among the decoded
  payloads after unwrapping (the nested result object of a JSON-RPC envelope, else
  the payload itself), and \<open>null\<close> when there is none; \<open>onDone\<close> follows the callbacks
  the payloads are dispatched to.
\<close>

theorem onDone_first_context_id:
  "streamMessage no_cancel (graceful chunks)
   = map Fired (dispatched (decoded (stream_blocks [] chunks)))
     @ [Fired (OnDone (first_context_id (decoded (stream_blocks [] chunks))))]"
  by (rule graceful_run)

text \<open>
  At a concrete input: the context identifier inside the result of an envelope is
  the one passed to \<open>onDone\<close>.
\<close>

theorem onDone_first_context_id_witness:
  "streamMessage no_cancel (graceful [nested_chunk])
   = [Fired OnWorking, Fired (OnDone (Some (JStr (js ''srv-9''))))]"
  using onDone_first_context_id [of "[nested_chunk]"]
  by (simp only: nested_decoded run_simps nested_dispatch nested_context)

text \<open>
  C4, as the specification words it, fails: a context identifier at the top level
  of a JSON-RPC envelope that has a result object is observed before unwrapping, and
  \<open>onDone\<close> is called with \<open>null\<close>.
\<close>

theorem envelope_context_id_ignored:
  "spec_context_id (decoded (stream_blocks [] [envelope_chunk])) = Some (JStr (js ''top''))
   \<and> streamMessage no_cancel (graceful [envelope_chunk])
       = [Fired (OnPart (JArr [text_json ''hi''])), Fired (OnDone None)]"
  by (simp only: graceful_run envelope_decoded run_simps envelope_dispatch envelope_context
      envelope_observed simp_thms)

text \<open>
  C8. A block whose joined data lines are not JSON leaves no mark on the stream: the
  callbacks are those of the blocks before it and after it, the context identifier
  is theirs, and the stream ends with \<open>onDone\<close>, not with \<open>onError\<close>.
\<close>

theorem invalid_block_skipped:
  assumes "stream_blocks [] chunks = bs1 @ b # bs2"
    and "JSON_parse (block_raw b) = None"
  shows "streamMessage no_cancel (graceful chunks)
         = map Fired (dispatched (decoded bs1) @ dispatched (decoded bs2))
           @ [Fired (OnDone (first_context_id (decoded bs1 @ decoded bs2)))]"
proof -
  have "block_payload b = None"
    using assms(2) by (simp add: block_payload_def)
  then have "decoded (bs1 @ b # bs2) = decoded bs1 @ decoded bs2"
    by (simp add: decoded_append decoded_Cons)
  then show ?thesis
    by (simp add: graceful_run assms(1) dispatched_append)
qed

lemma nope_raw: \<open>JSON_parse (block_raw (js ''data: {nope'')) = None\<close>
  by (simp add: block_raw_def data_lines_def startsWith_def trim_def is_js_space_def parse_defs)

theorem invalid_block_skipped_witness:
  \<open>stream_blocks [] [garbled_chunk]
     = [js ''data: {"kind":"message","parts":[{"kind":"text","text":"a"}]}'']
       @ js ''data: {nope''
       # [js ''data: {"kind":"message","parts":[{"kind":"text","text":"b"}]}'']
   \<and> JSON_parse (block_raw (js ''data: {nope'')) = None
   \<and> streamMessage no_cancel (graceful [garbled_chunk])
       = [Fired (OnPart (JArr [text_json ''a''])), Fired (OnPart (JArr [text_json ''b''])),
          Fired (OnDone None)]\<close>
  using invalid_block_skipped [OF garbled_blocks nope_raw] garbled_blocks nope_raw
  by (simp only: decoded_simps message_a_block message_b_block run_simps message_dispatch
      message_context simp_thms)

text \<open>
  C9, as the code has it. A payload of an unrecognized kind is dispatched to no
  callback, and still supplies the context identifier: when no payload before it
  supplies one, its truthy \<open>contextId\<close> is the one passed to \<open>onDone\<close>.
\<close>

theorem unrecognized_kind_supplies_context_id:
  assumes "decoded (stream_blocks [] chunks) = ps1 @ p # ps2"
    and "first_context_id ps1 = None"
    and "truthy p" and "typeof_object p"
    and "get_prop (unwrap p) (js ''kind'') \<noteq> Some (JStr (js ''status-update''))"
    and "get_prop (unwrap p) (js ''kind'') \<noteq> Some (JStr (js ''artifact-update''))"
    and "get_prop (unwrap p) (js ''kind'') \<noteq> Some (JStr (js ''message''))"
    and "get_prop (unwrap p) (js ''contextId'') = Some cid" and "truthy cid"
  shows "dispatchSseEvent p = None
         \<and> streamMessage no_cancel (graceful chunks)
           = map Fired (dispatched ps1 @ dispatched ps2) @ [Fired (OnDone (Some cid))]"
proof -
  have d: "dispatchSseEvent p = None"
    using assms(3-7) by (simp add: dispatchSseEvent_def Let_def)
  have c: "payload_context_id p = Some cid"
    using assms(3,4,8,9) by (simp add: payload_context_id_def)
  have "first_context_id (ps1 @ p # ps2) = Some cid"
    using assms(2) c
    by (induction ps1) (simp_all add: first_context_id_Cons split: option.splits)
  with d show ?thesis
    by (simp add: graceful_run assms(1) dispatched_append dispatched_Cons)
qed

theorem unrecognized_kind_supplies_context_id_witness:
  "decoded (stream_blocks [] [unknown_kind_chunk]) = [] @ task_payload # [later_payload]
   \<and> get_prop (unwrap task_payload) (js ''kind'') = Some (JStr (js ''task''))
   \<and> get_prop (unwrap task_payload) (js ''contextId'') = Some (JStr (js ''ctx-7''))
   \<and> dispatchSseEvent task_payload = None
   \<and> streamMessage no_cancel (graceful [unknown_kind_chunk])
       = [Fired (OnPart (JArr [text_json ''a''])), Fired (OnDone (Some (JStr (js ''ctx-7''))))]"
proof -
  have k: "get_prop (unwrap task_payload) (js ''kind'') = Some (JStr (js ''task''))"
    and c: "get_prop (unwrap task_payload) (js ''contextId'') = Some (JStr (js ''ctx-7''))"
    and t: "truthy task_payload" "typeof_object task_payload"
    by (simp_all add: task_payload_def unwrap_def js_def)
  have n: "Some (JStr (js ''task'')) \<noteq> Some (JStr (js ''status-update''))"
    "Some (JStr (js ''task'')) \<noteq> Some (JStr (js ''artifact-update''))"
    "Some (JStr (js ''task'')) \<noteq> Some (JStr (js ''message''))"
    by (simp_all add: js_def)
  have cid: "truthy (JStr (js ''ctx-7''))" by (simp add: js_def)
  from unrecognized_kind_supplies_context_id
    [OF unknown_kind_decoded first_context_id_Nil t n [folded k] c cid]
  show ?thesis
    using unknown_kind_decoded k c
    by (simp only: run_simps later_dispatch simp_thms)
qed

text \<open>
  C9, as stated, fails: the first context identifier observed that is not null
  need not be the one passed to \<open>onDone\<close>. A payload of an unrecognized kind whose
  \<open>contextId\<close> is the empty string is the first to carry one, and \<open>onDone\<close> is called
  with the identifier of the message after it.
\<close>

lemma empty_id_block:
  \<open>block_payload (js ''data: {"kind":"task","contextId":""}'') = Some empty_id_payload\<close>
  by (simp add: block_defs parse_defs empty_id_payload_def)

lemma empty_id_blocks:
  \<open>stream_blocks [] [empty_id_chunk]
   = [js ''data: {"kind":"task","contextId":""}'',
      js ''data: {"kind":"message","contextId":"ctx-8","parts":[{"kind":"text","text":"a"}]}'']\<close>
  by (simp add: empty_id_chunk_def blocks_defs)

lemma empty_id_decoded:
  "decoded (stream_blocks [] [empty_id_chunk]) = [empty_id_payload, later_payload]"
  by (simp only: empty_id_blocks decoded_simps empty_id_block later_block)

lemma empty_id_probe:
  "dispatchSseEvent empty_id_payload = None"
  "payload_context_id empty_id_payload = None"
  "get_prop (unwrap empty_id_payload) (js ''kind'') = Some (JStr (js ''task''))"
  "get_prop (unwrap empty_id_payload) (js ''contextId'') = Some (JStr [])"
  by (simp_all add: probe_defs empty_id_payload_def)

lemma later_context: "payload_context_id later_payload = Some (JStr (js ''ctx-8''))"
  by (simp add: probe_defs later_payload_def)

lemma empty_id_observed:
  "spec_context_id [empty_id_payload, later_payload] = Some (JStr [])"
  by (simp add: spec_context_id_def observed_context_ids_def non_null_def probe_defs
      empty_id_payload_def List.map_filter_simps)

theorem empty_context_id_passed_over:
  "decoded (stream_blocks [] [empty_id_chunk]) = [empty_id_payload, later_payload]
   \<and> get_prop (unwrap empty_id_payload) (js ''kind'') = Some (JStr (js ''task''))
   \<and> dispatchSseEvent empty_id_payload = None
   \<and> get_prop (unwrap empty_id_payload) (js ''contextId'') = Some (JStr [])
   \<and> non_null (Some (JStr []))
   \<and> spec_context_id (decoded (stream_blocks [] [empty_id_chunk])) = Some (JStr [])
   \<and> streamMessage no_cancel (graceful [empty_id_chunk])
       = [Fired (OnPart (JArr [text_json ''a''])), Fired (OnDone (Some (JStr (js ''ctx-8''))))]"
  by (simp only: graceful_run empty_id_decoded run_simps empty_id_probe later_dispatch
      later_context empty_id_observed simp_thms)
    (simp add: non_null_def)

section \<open>The store and send: the claims\<close>

subsection \<open>Lemmas\<close>

lemma renameConversation_absent:
  "oldId \<notin> conv_id ` set prev \<Longrightarrow> renameConversation oldId newId prev = prev"
  unfolding renameConversation_def by (induction prev) auto

lemma renameConversation_ids:
  "map conv_id (renameConversation oldId newId prev)
   = map (\<lambda>i. if i = oldId then newId else i) (map conv_id prev)"
  unfolding renameConversation_def by (induction prev) auto

lemma renameConversation_distinct:
  "distinct (map conv_id prev) \<Longrightarrow> newId \<notin> conv_id ` set prev \<Longrightarrow>
   distinct (map conv_id (renameConversation oldId newId prev))"
  unfolding renameConversation_ids
  by (induction prev) (auto simp: image_iff split: if_splits)

lemma appendParts_conv_absent:
  "convId \<notin> conv_id ` set prev \<Longrightarrow> appendParts convId msgId ps now prev = prev"
  unfolding appendParts_def by (induction prev) auto

lemma appendParts_msg_absent:
  assumes "\<forall>c \<in> set prev. conv_id c = convId \<longrightarrow> msgId \<notin> msg_id ` set (messages c)"
  shows "appendParts convId msgId ps now prev
         = map (\<lambda>c. if conv_id c = convId then c\<lparr>updatedAt := now\<rparr> else c) prev"
proof -
  have "\<And>c. c \<in> set prev \<Longrightarrow> conv_id c = convId \<Longrightarrow>
          map (\<lambda>m. if msg_id m \<noteq> msgId then m
                   else (let merged = parts m @ ps;
                             fullText = js_join [10] (map text_of (filter is_text merged))
                         in m\<lparr>parts := merged, displayText := Some fullText,
                              msg_status := StatusStreaming\<rparr>)) (messages c) = messages c"
    using assms by (intro map_idI) auto
  then show ?thesis
    unfolding appendParts_def by (intro map_cong) auto
qed

lemma truncate_42:
  "truncate text 42 = (if length text \<le> 42 then text else take 41 text @ [8230])"
  by (simp add: truncate_def slice0_def)

lemma truncate_42_length: "length (truncate text 42) \<le> 42"
  by (simp add: truncate_def slice0_def)

lemma updateMessage_titles: "map title (updateMessage convId msgId f prev) = map title prev"
  by (simp add: updateMessage_def comp_def)

lemma renameConversation_titles: "map title (renameConversation oldId newId prev) = map title prev"
  by (simp add: renameConversation_def comp_def)

lemma adoptContextId_titles:
  "map title (conversations (snd (adoptContextId g (t, st)))) = map title (conversations st)"
  by (simp add: adoptContextId_def Let_def renameConversation_titles split: option.splits)

lemma send_settle_titles:
  "map title (conversations (send_settle outcome (t, st))) = map title (conversations st)"
proof (cases outcome)
  case (Inl err)
  then show ?thesis by (simp add: send_settle_def Let_def updateMessage_titles)
next
  case (Inr result)
  obtain t' st' where a: "adoptContextId (sr_contextId result) (t, st) = (t', st')"
    by (cases "adoptContextId (sr_contextId result) (t, st)")
  then have "map title (conversations st') = map title (conversations st)"
    using adoptContextId_titles [of "sr_contextId result" t st] by simp
  then show ?thesis using Inr a by (simp add: send_settle_def Let_def updateMessage_titles)
qed

lemma send_prepare_new:
  assumes "send_prepare fr st = Some (t, st1)"
    and "activeConvId st = None \<or> activeConvId st = Some []"
  shows "\<exists>c. conversations st1 = c # conversations st \<and> conv_id c = uuid_conv fr
             \<and> title c = truncate (trim (input st)) 42
             \<and> localConvId t = uuid_conv fr
             \<and> (\<exists>m \<in> set (messages c). msg_id m = uuid_agent fr)"
  using assms
  by (auto simp: send_prepare_def Let_def split: option.splits if_splits)






subsection \<open>adoptContextId\<close>

text \<open>
  C3, as the code has it. In a store whose conversation identities are distinct,
  adopting \<open>newId\<close> for the turn's conversation changes the identity field of the
  conversation matching the turn's current identifier and nothing else; it changes
  nothing when \<open>newId\<close> is empty or is the current identifier, and nothing when no
  conversation matches. The identities stay distinct when \<open>newId\<close> does not already
  identify a conversation of the store. There is no check for a collision. Adopting
  \<open>null\<close> changes nothing at all.
\<close>

theorem adoptContextId_renames:
  assumes "distinct (map conv_id (conversations st))"
  shows "conversations (snd (adoptContextId (Some newId) (t, st)))
           = (if newId = [] \<or> newId = currentConvIdRef t then conversations st
              else map (\<lambda>c. if conv_id c = currentConvIdRef t then c\<lparr>conv_id := newId\<rparr> else c)
                     (conversations st))
         \<and> (currentConvIdRef t \<notin> conv_id ` set (conversations st) \<longrightarrow>
              conversations (snd (adoptContextId (Some newId) (t, st))) = conversations st)
         \<and> (newId \<notin> conv_id ` set (conversations st) \<longrightarrow>
              distinct (map conv_id (conversations (snd (adoptContextId (Some newId) (t, st))))))
         \<and> adoptContextId None (t, st) = (t, st)"
proof (intro conjI impI)
  show "conversations (snd (adoptContextId (Some newId) (t, st)))
          = (if newId = [] \<or> newId = currentConvIdRef t then conversations st
             else map (\<lambda>c. if conv_id c = currentConvIdRef t then c\<lparr>conv_id := newId\<rparr> else c)
                    (conversations st))"
    by (simp add: adoptContextId_def renameConversation_def Let_def)
next
  assume "currentConvIdRef t \<notin> conv_id ` set (conversations st)"
  then show "conversations (snd (adoptContextId (Some newId) (t, st))) = conversations st"
    by (simp add: adoptContextId_def Let_def renameConversation_absent)
next
  assume "newId \<notin> conv_id ` set (conversations st)"
  with assms show "distinct (map conv_id (conversations (snd (adoptContextId (Some newId) (t, st)))))"
    by (simp add: adoptContextId_def Let_def renameConversation_distinct)
next
  show "adoptContextId None (t, st) = (t, st)"
    by (simp add: adoptContextId_def)
qed

lemmas store_defs = two_convs_def conv_local_def conv_server_def turn_local_def js_def
  adoptContextId_def renameConversation_def Let_def

theorem adoptContextId_renames_witness:
  "distinct (map conv_id (conversations two_convs))
   \<and> js ''gw-1'' \<notin> conv_id ` set (conversations two_convs)
   \<and> conversations (snd (adoptContextId (Some (js ''gw-1'')) (turn_local, two_convs)))
       = [conv_local\<lparr>conv_id := js ''gw-1''\<rparr>, conv_server]
   \<and> distinct (map conv_id
        (conversations (snd (adoptContextId (Some (js ''gw-1'')) (turn_local, two_convs)))))"
proof -
  have d: "distinct (map conv_id (conversations two_convs))"
    by (simp add: store_defs)
  have n: "js ''gw-1'' \<notin> conv_id ` set (conversations two_convs)"
    by (simp add: store_defs)
  have e: "conversations (snd (adoptContextId (Some (js ''gw-1'')) (turn_local, two_convs)))
             = [conv_local\<lparr>conv_id := js ''gw-1''\<rparr>, conv_server]"
    by (simp add: store_defs)
  from adoptContextId_renames [OF d, of "js ''gw-1''" turn_local] n
  have "distinct (map conv_id
          (conversations (snd (adoptContextId (Some (js ''gw-1'')) (turn_local, two_convs)))))"
    by blast
  with d n e show ?thesis by simp
qed

text \<open>
  C3, as stated, fails: when the adopted identifier already identifies another
  conversation, the rename is applied all the same, and two conversations share
  the identifier.
\<close>

theorem adoptContextId_collision:
  "distinct (map conv_id (conversations two_convs))
   \<and> conversations (snd (adoptContextId (Some (js ''srv-9'')) (turn_local, two_convs)))
       = [conv_local\<lparr>conv_id := js ''srv-9''\<rparr>, conv_server]
   \<and> conversations (snd (adoptContextId (Some (js ''srv-9'')) (turn_local, two_convs)))
       \<noteq> conversations two_convs
   \<and> \<not> distinct (map conv_id
          (conversations (snd (adoptContextId (Some (js ''srv-9'')) (turn_local, two_convs)))))"
  by (simp add: store_defs)

subsection \<open>appendParts\<close>

text \<open>
  C5. Appending the parts \<open>A\<close> and then the parts \<open>B\<close> to a message leaves the store
  as appending \<open>A @ B\<close> at once does: the same parts, the same cached display text
  (and the same status), for every conversation and message. The time of the second
  update is the time of the single one.
\<close>

theorem appendParts_append:
  "appendParts convId msgId B t2 (appendParts convId msgId A t1 prev)
   = appendParts convId msgId (A @ B) t2 prev"
  by (simp add: appendParts_def Let_def)

text \<open>
  C7, as the code has it. When no conversation has the given identity, \<open>appendParts\<close>
  leaves the store unchanged. When the conversation is there and has no message of
  the given identity, its messages and every other field are unchanged except
  \<open>updatedAt\<close>, which is set to the time of the call.
\<close>

theorem appendParts_absent:
  "(convId \<notin> conv_id ` set prev \<longrightarrow> appendParts convId msgId ps now prev = prev)
   \<and> ((\<forall>c \<in> set prev. conv_id c = convId \<longrightarrow> msgId \<notin> msg_id ` set (messages c)) \<longrightarrow>
        appendParts convId msgId ps now prev
        = map (\<lambda>c. if conv_id c = convId then c\<lparr>updatedAt := now\<rparr> else c) prev)"
  using appendParts_conv_absent [of convId prev msgId ps now]
    appendParts_msg_absent [of prev convId msgId ps now]
  by blast

theorem appendParts_absent_witness:
  "js ''gone'' \<notin> conv_id ` set [conv_local, conv_server]
   \<and> appendParts (js ''gone'') (js ''m-2'') [TextPart (js ''x'')] 9 [conv_local, conv_server]
       = [conv_local, conv_server]
   \<and> js ''m-2'' \<notin> msg_id ` set (messages conv_local)
   \<and> appendParts (js ''local-3'') (js ''m-2'') [TextPart (js ''x'')] 9 [conv_local, conv_server]
       = [conv_local\<lparr>updatedAt := 9\<rparr>, conv_server]"
proof -
  have a: "js ''gone'' \<notin> conv_id ` set [conv_local, conv_server]"
    by (simp add: conv_local_def conv_server_def js_def)
  have b: "\<forall>c \<in> set [conv_local, conv_server].
             conv_id c = js ''local-3'' \<longrightarrow> js ''m-2'' \<notin> msg_id ` set (messages c)"
    by (simp add: conv_local_def conv_server_def js_def)
  have i: "conv_id conv_local = js ''local-3''" "conv_id conv_server \<noteq> js ''local-3''"
    "messages conv_local = []"
    by (simp_all add: conv_local_def conv_server_def js_def)
  from appendParts_absent
    [of "js ''gone''" "[conv_local, conv_server]" "js ''m-2''" "[TextPart (js ''x'')]" 9] a
  have 1: "appendParts (js ''gone'') (js ''m-2'') [TextPart (js ''x'')] 9 [conv_local, conv_server]
           = [conv_local, conv_server]"
    by blast
  from appendParts_absent
    [of "js ''local-3''" "[conv_local, conv_server]" "js ''m-2''" "[TextPart (js ''x'')]" 9] b
  have 2: "appendParts (js ''local-3'') (js ''m-2'') [TextPart (js ''x'')] 9 [conv_local, conv_server]
           = map (\<lambda>c. if conv_id c = js ''local-3'' then c\<lparr>updatedAt := 9\<rparr> else c)
               [conv_local, conv_server]"
    by blast
  show ?thesis using a 1 2 i by simp
qed

text \<open>
  C7, as stated, fails: for a conversation that has no message of the given
  identity, \<open>appendParts\<close> changes the store, because it sets \<open>updatedAt\<close>.
\<close>

theorem appendParts_touches_updatedAt:
  "js ''m-2'' \<notin> msg_id ` set (messages conv_local)
   \<and> appendParts (js ''local-3'') (js ''m-2'') [TextPart (js ''x'')] 9 [conv_local]
       \<noteq> [conv_local]
   \<and> updatedAt conv_local = 1
   \<and> map updatedAt (appendParts (js ''local-3'') (js ''m-2'') [TextPart (js ''x'')] 9 [conv_local])
       = [9]"
  by (simp add: appendParts_def conv_local_def js_def)

subsection \<open>send\<close>

lemma long_trim: "trim long_input = js ''this message is longer than forty-two code units''"
  by (simp add: long_input_def js_def trim_def is_js_space_def)

lemma long_prepare:
  "\<exists>t st1. send_prepare fresh_values long_session = Some (t, st1)"
  by (simp add: send_prepare_def long_session_def fresh_session_def Let_def long_trim js_def)


text \<open>
  C10. A call of \<open>send\<close> that passes the guard with no active conversation leaves a
  new conversation at the head of the store, on the streaming path and on the
  synchronous one. Its title is the trimmed input when that is at most 42 code units
  long, and otherwise the first 41 code units of the trimmed input followed by the
  single code unit U+2026; so it is at most 42 code units long.
\<close>

theorem new_conversation_title:
  assumes "send_prepare fr st = Some (t, st1)"
    and "activeConvId st = None \<or> activeConvId st = Some []"
  shows "\<exists>st' c cs. outcome_state (send fr net st) = Some st'
           \<and> conversations st' = c # cs
           \<and> title c = (if length (trim (input st)) \<le> 42 then trim (input st)
                         else take 41 (trim (input st)) @ [8230])
           \<and> length (title c) \<le> 42"
proof -
  from send_prepare_new [OF assms] obtain c0 where
    c0: "conversations st1 = c0 # conversations st" "title c0 = truncate (trim (input st)) 42"
    by blast
  obtain st' where st': "outcome_state (send fr net st) = Some st'"
    and ti: "map title (conversations st') = map title (conversations st1)"
  proof (cases "supportsStreaming t")
    case True
    then have "outcome_state (send fr net st) = Some st1"
      using assms(1) by (simp add: send_def)
    then show ?thesis using that by simp
  next
    case False
    obtain outcome net' where o: "sendMessage net = (outcome, net')"
      by (cases "sendMessage net")
    then have "outcome_state (send fr net st) = Some (send_settle outcome (t, st1))"
      using assms(1) False by (simp add: send_def)
    then show ?thesis using that send_settle_titles by simp
  qed
  from ti c0 obtain c cs where "conversations st' = c # cs" "title c = title c0"
    by (auto simp: map_eq_Cons_conv)
  with st' c0 show ?thesis
    by (auto simp: truncate_42 truncate_42_length [of "trim (input st)", unfolded truncate_42])
qed

theorem new_conversation_title_witness:
  "activeConvId long_session = None
   \<and> length (trim (input long_session)) = 48
   \<and> (\<exists>st' c cs. outcome_state (send fresh_values gateway_500 long_session) = Some st'
          \<and> conversations st' = c # cs
          \<and> title c = js ''this message is longer than forty-two cod'' @ [8230]
          \<and> length (title c) = 42)"
proof -
  have a: "activeConvId long_session = None"
    by (simp add: long_session_def fresh_session_def)
  have i: "trim (input long_session) = js ''this message is longer than forty-two code units''"
    by (simp add: long_session_def long_trim)
  obtain t st1 where p: "send_prepare fresh_values long_session = Some (t, st1)"
    using long_prepare by blast
  from new_conversation_title [OF p disjI1 [OF a], of gateway_500]
  obtain st' c cs where r: "outcome_state (send fresh_values gateway_500 long_session) = Some st'"
    "conversations st' = c # cs"
    "title c = (if length (trim (input long_session)) \<le> 42 then trim (input long_session)
                else take 41 (trim (input long_session)) @ [8230])"
    by blast
  have "title c = js ''this message is longer than forty-two cod'' @ [8230]"
    using r(3) unfolding i by (simp add: js_def)
  moreover from this have "length (title c) = 42" by (simp add: js_def)
  moreover have "length (trim (input long_session)) = 48" unfolding i by (simp add: js_def)
  ultimately show ?thesis using a r(1,2) by blast
qed













end
